theory Spec2Isabelle
  imports Complex_Main
begin

section \<open>Python values shared by the embedded modules\<close>

text \<open>
  Python floats are modelled as \<^typ>\<open>real\<close> (rounding, infinities and NaN are idealised
  away), Python ints as \<^typ>\<open>int\<close>, and every \<open>raise\<close> of the source as a value of
  \<open>py_error\<close> on the left of a sum.
\<close>

datatype py_error = TypeError | ValueError | IndexError | ZeroDivisionError

text \<open>\<open>np.hypot\<close>, \<open>np.clip\<close> and \<open>np.arctan2\<close> of numpy.\<close>

definition hypot :: "real \<Rightarrow> real \<Rightarrow> real" where
  "hypot x y = sqrt (x\<^sup>2 + y\<^sup>2)"

definition clip :: "real \<Rightarrow> real \<Rightarrow> real \<Rightarrow> real" where
  "clip a lo hi = min hi (max a lo)"

definition arctan2 :: "real \<Rightarrow> real \<Rightarrow> real" where
  "arctan2 y x =
     (if 0 < x then arctan (y / x)
      else if x < 0 \<and> 0 \<le> y then arctan (y / x) + pi
      else if x < 0 then arctan (y / x) - pi
      else if 0 < y then pi / 2
      else if y < 0 then - (pi / 2)
      else 0)"

text \<open>
  \<open>np.mean\<close>, \<open>np.var\<close>, \<open>np.std\<close> (the population forms) and \<open>np.linalg.norm\<close> on
  one-dimensional arrays. On an empty array numpy's mean is NaN with a warning; the
  sources call it on non-empty arrays only.
\<close>

definition np_mean :: "real list \<Rightarrow> real" where
  "np_mean xs = sum_list xs / real (length xs)"

definition np_var :: "real list \<Rightarrow> real" where
  "np_var xs = np_mean (map (\<lambda>x. (x - np_mean xs)\<^sup>2) xs)"

definition np_std :: "real list \<Rightarrow> real" where
  "np_std xs = sqrt (np_var xs)"

definition np_norm :: "real list \<Rightarrow> real" where
  "np_norm v = sqrt (sum_list (map (\<lambda>x. x\<^sup>2) v))"

text \<open>
  \<open>a - b\<close> on one-dimensional arrays: elementwise on equal lengths, an array of length one
  is broadcast, and any other pair of lengths raises \<open>ValueError\<close>.
\<close>

definition np_sub :: "real list \<Rightarrow> real list \<Rightarrow> py_error + real list" where
  "np_sub a b =
     (if length a = length b then Inr (map (\<lambda>(x, y). x - y) (zip a b))
      else if length a = 1 then Inr (map (\<lambda>y. hd a - y) b)
      else if length b = 1 then Inr (map (\<lambda>x. x - hd b) a)
      else Inl ValueError)"

text \<open>\<open>int(x)\<close> of a float truncates towards zero; \<open>min\<close> and \<open>max\<close> of a non-empty list.\<close>

definition py_int :: "real \<Rightarrow> int" where
  "py_int x = (if 0 \<le> x then \<lfloor>x\<rfloor> else \<lceil>x\<rceil>)"

definition py_min :: "real list \<Rightarrow> real" where
  "py_min xs = foldl min (hd xs) (tl xs)"

definition py_max :: "real list \<Rightarrow> real" where
  "py_max xs = foldl max (hd xs) (tl xs)"

text \<open>\<open>str(n)\<close> of an int, as the f-strings of the sources format their counters.\<close>

definition digit_char :: "nat \<Rightarrow> char" where
  "digit_char d = ''0123456789'' ! d"

fun str_nat :: "nat \<Rightarrow> string" where
  "str_nat n = (if n < 10 then [digit_char n] else str_nat (n div 10) @ [digit_char (n mod 10)])"

definition str_int :: "int \<Rightarrow> string" where
  "str_int i = (if i < 0 then CHR ''-'' # str_nat (nat (- i)) else str_nat (nat i))"

text \<open>
  The slices \<open>xs[-k:]\<close> and \<open>xs[:k]\<close> of Python for an int \<open>k\<close> of either sign, and
  \<open>xs[:-10]\<close>.
\<close>

definition slice_last :: "int \<Rightarrow> 'a list \<Rightarrow> 'a list" where
  "slice_last k xs =
     (if 0 < k then drop (length xs - nat k) xs else drop (nat (- k)) xs)"

definition slice_first :: "int \<Rightarrow> 'a list \<Rightarrow> 'a list" where
  "slice_first k xs =
     (if 0 \<le> k then take (nat k) xs else take (length xs - nat (- k)) xs)"

text \<open>
  \<open>collections.deque(maxlen=m).append(x)\<close> on the contents \<open>xs\<close> (oldest first): nothing
  is kept when \<open>m\<close> is 0, and the oldest element leaves when the bound is exceeded. A
  negative \<open>maxlen\<close> makes the constructor raise, so the bound of a deque is a \<open>nat\<close>.
\<close>

definition deque_append :: "nat \<Rightarrow> 'a list \<Rightarrow> 'a \<Rightarrow> 'a list" where
  "deque_append m xs x =
     (if m = 0 then xs
      else let ys = xs @ [x] in if length ys > m then tl ys else ys)"

section \<open>st\_env/utils.py: separation geometry\<close>

text \<open>
  An aircraft state dictionary. The keys the source reads with \<open>ac["key"]\<close> are fields;
  the two keys it reads with \<open>ac.get(key, default)\<close> are optional, \<open>None\<close> standing for
  an absent key. The key \<open>"id"\<close> is the field \<open>ac_id\<close>.
\<close>

record aircraft_state =
  ac_id :: string
  x_nm :: real
  y_nm :: real
  v_kt :: real
  hdg_rad :: real
  alt_ft :: real
  goal_x_nm :: real
  goal_y_nm :: real
  alive :: "bool option"
  intent_onehot :: "real list option"

text \<open>\<open>ac.get("alive", True)\<close>\<close>

definition get_alive :: "aircraft_state \<Rightarrow> bool" where
  "get_alive ac = (case alive ac of None \<Rightarrow> True | Some b \<Rightarrow> b)"

text \<open>
  The body of the inner loop of \<open>pairwise_min_separation_nm\<close>, for one pair
  \<open>ai = states[i]\<close>, \<open>aj = states[j]\<close>, on the accumulators \<open>(min_sep, los_count)\<close>.
\<close>

definition pair_body :: "aircraft_state \<Rightarrow> aircraft_state \<Rightarrow> real \<times> int \<Rightarrow> real \<times> int" where
  "pair_body ai aj acc =
     (case acc of (min_sep, los_count) \<Rightarrow>
        if \<not> (get_alive ai \<and> get_alive aj) then (min_sep, los_count)
        else
          let d_nm = hypot (x_nm ai - x_nm aj) (y_nm ai - y_nm aj);
              d_ft = \<bar>alt_ft ai - alt_ft aj\<bar>;
              min_sep' = min min_sep d_nm
          in if d_nm < 5.0 \<and> d_ft < 1000.0 then (min_sep', los_count + 1)
             else (min_sep', los_count))"

text \<open>\<open>for j in range(i + 1, len(states))\<close>: the states after position \<open>i\<close>, in order.\<close>

fun inner_loop :: "aircraft_state \<Rightarrow> aircraft_state list \<Rightarrow> real \<times> int \<Rightarrow> real \<times> int" where
  "inner_loop ai [] acc = acc"
| "inner_loop ai (aj # rest) acc = inner_loop ai rest (pair_body ai aj acc)"

text \<open>\<open>for i in range(len(states))\<close>\<close>

fun outer_loop :: "aircraft_state list \<Rightarrow> real \<times> int \<Rightarrow> real \<times> int" where
  "outer_loop [] acc = acc"
| "outer_loop (ai # rest) acc = outer_loop rest (inner_loop ai rest acc)"

text \<open>The sentinel \<open>1e9\<close> is written \<open>1000000000\<close>.\<close>

definition pairwise_min_separation_nm :: "aircraft_state list \<Rightarrow> real \<times> int" where
  "pairwise_min_separation_nm states =
     (case outer_loop states (1000000000, 0) of (min_sep, los_count) \<Rightarrow>
        ((if min_sep < 1000000000 then min_sep else 999.0), los_count))"

section \<open>st\_env/reward.py: the reward engine\<close>

definition NEAR_NM :: real where
  "NEAR_NM = 6.0"

text \<open>The \<open>comps\<close> dictionary: its seven keys, in insertion order.\<close>

record reward_components =
  los :: real
  near :: real
  progress :: real
  smooth :: real
  fuel :: real
  terminal :: real
  catastrophe :: real

text \<open>\<open>comps.values()\<close> and \<open>sum(comps.values())\<close>, which adds from the left starting at 0.\<close>

definition comps_values :: "reward_components \<Rightarrow> real list" where
  "comps_values c = [los c, near c, progress c, smooth c, fuel c, terminal c, catastrophe c]"

definition py_sum :: "real list \<Rightarrow> real" where
  "py_sum xs = foldl (+) 0 xs"

text \<open>
  The loop \<open>for i, (a_prev, a_cur) in enumerate(zip(prev_states, cur_states))\<close> on the
  accumulators \<open>(prog, terminal_bonus)\<close>; \<open>n\<close> is \<open>len(cur_states)\<close>.
\<close>

fun reward_loop ::
  "nat \<Rightarrow> nat \<Rightarrow> (aircraft_state \<times> aircraft_state) list \<Rightarrow> real \<times> real \<Rightarrow> real \<times> real" where
  "reward_loop i n [] acc = acc"
| "reward_loop i n ((a_prev, a_cur) # rest) acc =
     (case acc of (prog, terminal_bonus) \<Rightarrow>
        if i \<ge> n then (prog, terminal_bonus)
        else if \<not> get_alive a_cur then
          (if get_alive a_prev then
             let gx = goal_x_nm a_cur; gy = goal_y_nm a_cur;
                 final_range = hypot (gx - x_nm a_cur) (gy - y_nm a_cur)
             in reward_loop (Suc i) n rest
                  (prog, if final_range < 5.0 then terminal_bonus + 5.0 else terminal_bonus)
           else reward_loop (Suc i) n rest (prog, terminal_bonus))
        else
          let gx = goal_x_nm a_cur; gy = goal_y_nm a_cur;
              prev_range = hypot (gx - x_nm a_prev) (gy - y_nm a_prev);
              cur_range = hypot (gx - x_nm a_cur) (gy - y_nm a_cur);
              delta_range = prev_range - cur_range
          in reward_loop (Suc i) n rest (prog + delta_range, terminal_bonus))"

text \<open>The components as \<open>compute_reward\<close> leaves them in \<open>comps\<close> before summing.\<close>

definition reward_comps ::
  "aircraft_state list \<Rightarrow> aircraft_state list \<Rightarrow> real \<Rightarrow> int \<Rightarrow> reward_components" where
  "reward_comps prev_states cur_states min_sep_nm los_count =
     (let comps0 = \<lparr>los = 0.0, near = 0.0, progress = 0.0, smooth = 0.0, fuel = 0.0,
                     terminal = 0.0, catastrophe = 0.0\<rparr>;
          comps1 = comps0\<lparr>los := - 10.0 * real_of_int los_count\<rparr>;
          comps2 = (if min_sep_nm < NEAR_NM then comps1\<lparr>near := - 2.0\<rparr> else comps1)
      in case reward_loop 0 (length cur_states) (zip prev_states cur_states) (0.0, 0.0) of
           (prog, terminal_bonus) \<Rightarrow>
             let comps3 = comps2\<lparr>progress := 0.05 * prog\<rparr>;
                 comps4 = comps3\<lparr>terminal := terminal_bonus\<rparr>;
                 comps5 = comps4\<lparr>smooth := 0.0\<rparr>;
                 comps6 = comps5\<lparr>fuel := 0.0\<rparr>
             in if los_count \<ge> 2 then comps6\<lparr>catastrophe := - 10.0\<rparr> else comps6)"

definition compute_reward ::
  "aircraft_state list \<Rightarrow> aircraft_state list \<Rightarrow> real \<Rightarrow> int \<Rightarrow> real list
     \<Rightarrow> real \<times> reward_components" where
  "compute_reward prev_states cur_states min_sep_nm los_count alive_mask =
     (let comps = reward_comps prev_states cur_states min_sep_nm los_count;
          r = py_sum (comps_values comps)
      in (clip r (- 20.0) 5.0, comps))"

section \<open>st\_env/env.py: the simulation environment\<close>

definition MAX_AC :: nat where
  "MAX_AC = 16"

definition PER_AC_FEATS :: nat where
  "PER_AC_FEATS = 18"

text \<open>
  \<open>feats[i, 9:14] = intent[:5]\<close>: numpy assigns a slice of five cells from five values, or
  from one value broadcast to all five, and raises \<open>ValueError\<close> on any other length.
\<close>

definition intent_cells :: "real list \<Rightarrow> py_error + real list" where
  "intent_cells intent =
     (let t = take 5 intent
      in if length t = 5 then Inr t
         else if length t = 1 then Inr (replicate 5 (hd t))
         else Inl ValueError)"

text \<open>
  One row of \<open>feats\<close> in \<open>_encode_obs\<close>: nine computed features, the five intent cells and
  the four reserved zeros. The casts to \<open>float32\<close> are idealised away.
\<close>

definition encode_row :: "aircraft_state \<Rightarrow> py_error + real list" where
  "encode_row ac =
     (let x = x_nm ac; y = y_nm ac;
          v = v_kt ac / 600.0;
          hdg_s = sin (hdg_rad ac); hdg_c = cos (hdg_rad ac);
          alt = (alt_ft ac - 15000.0) / 15000.0;
          gx = goal_x_nm ac; gy = goal_y_nm ac;
          brg = arctan2 (gy - y) (gx - x);
          brg_s = sin brg; brg_c = cos brg;
          rng = hypot (gx - x) (gy - y) / 100.0;
          intent = (case intent_onehot ac of None \<Rightarrow> replicate 5 0 | Some it \<Rightarrow> it);
          row = [x / 100, y / 100, v, hdg_s, hdg_c, alt, brg_s, brg_c, rng]
      in case intent_cells intent of
           Inl e \<Rightarrow> Inl e
         | Inr cells \<Rightarrow> Inr (row @ cells @ replicate (PER_AC_FEATS - 14) 0))"

text \<open>\<open>for i, ac in enumerate(states[:MAX_AC])\<close>: the rows written, first error first.\<close>

fun encode_rows :: "aircraft_state list \<Rightarrow> py_error + real list list" where
  "encode_rows [] = Inr []"
| "encode_rows (ac # rest) =
     (case encode_row ac of
        Inl e \<Rightarrow> Inl e
      | Inr row \<Rightarrow> (case encode_rows rest of Inl e \<Rightarrow> Inl e | Inr rows \<Rightarrow> Inr (row # rows)))"

text \<open>
  \<open>_encode_obs\<close>, given \<open>self._step_count\<close> and \<open>self._horizon\<close>: the observation vector
  and the alive mask, both padded with zeros up to \<open>MAX_AC\<close> slots. The quotient
  \<open>self._step_count / self._horizon\<close> raises on a zero horizon.
\<close>

definition encode_obs ::
  "int \<Rightarrow> int \<Rightarrow> aircraft_state list \<Rightarrow> py_error + (real list \<times> real list)" where
  "encode_obs step_count horizon states =
     (let shown = take MAX_AC states;
          alive_mask = map (\<lambda>ac. if get_alive ac then 1.0 else 0.0) shown
                         @ replicate (MAX_AC - length shown) 0
      in case encode_rows shown of
           Inl e \<Rightarrow> Inl e
         | Inr rows \<Rightarrow>
             if horizon = 0 then Inl ZeroDivisionError
             else
               let feats = rows @ replicate (MAX_AC - length shown) (replicate PER_AC_FEATS 0);
                   global_feats = [py_sum alive_mask / real MAX_AC, 0.0, 0.0,
                                   real_of_int step_count / real_of_int horizon,
                                   0.0, 0.0, 0.0, 0.0]
               in Inr (concat feats @ global_feats, alive_mask))"

text \<open>
  The environment object: the simulator \<open>self.sim\<close> (of the package \<open>bluesky_adapter\<close>,
  which is not part of the sources, so its \<open>step\<close> is a parameter of the model) and the
  fields \<open>_horizon\<close>, \<open>_alive_mask\<close>, \<open>_last_states\<close> and \<open>_step_count\<close>, each
  written with the prefix \<open>env\<close>.
\<close>

record 'sim tower_env =
  env_sim :: 'sim
  env_horizon :: int
  env_alive_mask :: "real list"
  env_last_states :: "aircraft_state list option"
  env_step_count :: int

record command =
  cmd_id :: string
  delta_hdg :: real
  delta_vs :: real

record step_info =
  r_components :: reward_components
  info_min_sep_nm :: real
  info_los :: int
  num_alive :: int
  info_step_count :: int

record step_result =
  obs :: "real list"
  reward :: real
  terminated :: bool
  truncated :: bool
  info :: step_info

text \<open>
  The command loop of \<open>step\<close>: \<open>actions[i, 0]\<close> and \<open>actions[i, 1]\<close> are the cells
  \<open>2 * i\<close> and \<open>2 * i + 1\<close> of the flat action vector; \<open>n\<close> is \<open>len(self._last_states)\<close>.
\<close>

fun build_cmds :: "nat \<Rightarrow> nat \<Rightarrow> real list \<Rightarrow> aircraft_state list \<Rightarrow> command list" where
  "build_cmds i n action [] = []"
| "build_cmds i n action (ac # rest) =
     (if i \<ge> n then []
      else if \<not> get_alive ac then build_cmds (Suc i) n action rest
      else \<lparr>cmd_id = ac_id ac,
            delta_hdg = action ! (2 * i),
            delta_vs = action ! (2 * i + 1) * 1000.0\<rparr> # build_cmds (Suc i) n action rest)"

text \<open>
  \<open>SyntheticTowerEnv.step\<close>. \<open>action.reshape((MAX_AC, 2))\<close> raises unless the action has
  \<open>2 * MAX_AC\<close> cells, and slicing \<open>self._last_states\<close> raises before the first \<open>reset\<close>.
  \<open>int(np.sum(alive))\<close> truncates a sum of zeros and ones.
\<close>

definition step ::
  "('sim \<Rightarrow> command list \<Rightarrow> 'sim \<times> aircraft_state list) \<Rightarrow> 'sim tower_env \<Rightarrow> real list
     \<Rightarrow> py_error + (step_result \<times> 'sim tower_env)" where
  "step sim_step env action =
     (let step_count' = env_step_count env + 1
      in if length action \<noteq> 2 * MAX_AC then Inl ValueError
         else case env_last_states env of
           None \<Rightarrow> Inl TypeError
         | Some prev \<Rightarrow>
             let cmds = build_cmds 0 (length prev) action (take MAX_AC prev)
             in case sim_step (env_sim env) cmds of (sim', states) \<Rightarrow>
                  (case encode_obs step_count' (env_horizon env) states of
                     Inl e \<Rightarrow> Inl e
                   | Inr (ob, alive_now) \<Rightarrow>
                       (case pairwise_min_separation_nm states of (min_sep, los_count) \<Rightarrow>
                          (case compute_reward prev states min_sep los_count alive_now of
                             (rew, comps) \<Rightarrow>
                               let term1 = (catastrophe comps < 0);
                                   trunc = (step_count' \<ge> env_horizon env);
                                   term2 = (if py_sum alive_now = 0 then True else term1)
                               in Inr (\<lparr>obs = ob, reward = rew, terminated = term2,
                                        truncated = trunc,
                                        info = \<lparr>r_components = comps, info_min_sep_nm = min_sep,
                                                 info_los = los_count,
                                                 num_alive = \<lfloor>py_sum alive_now\<rfloor>,
                                                 info_step_count = step_count'\<rparr>\<rparr>,
                                       env\<lparr>env_sim := sim', env_last_states := Some states,
                                           env_alive_mask := alive_now,
                                           env_step_count := step_count'\<rparr>)))))"

subsection \<open>Auxiliary predicates for the environment proofs\<close>

text \<open>
  The pairs the specification calls a loss of separation: both aircraft live, horizontal
  distance below 5 NM and vertical distance below 1000 ft; and the index pairs \<open>i < j\<close> of
  a state list that are such pairs.
\<close>

definition los_pair :: "aircraft_state \<Rightarrow> aircraft_state \<Rightarrow> bool" where
  "los_pair a b \<longleftrightarrow> get_alive a \<and> get_alive b
     \<and> hypot (x_nm a - x_nm b) (y_nm a - y_nm b) < 5 \<and> \<bar>alt_ft a - alt_ft b\<bar> < 1000"

definition los_pairs :: "aircraft_state list \<Rightarrow> (nat \<times> nat) set" where
  "los_pairs xs = {(i, j). i < j \<and> j < length xs \<and> los_pair (xs ! i) (xs ! j)}"

text \<open>The intent vectors that \<open>_encode_obs\<close> can write into its five cells.\<close>

definition intent_ok :: "aircraft_state \<Rightarrow> bool" where
  "intent_ok ac = (case intent_onehot ac of None \<Rightarrow> True
                   | Some it \<Rightarrow> 5 \<le> length it \<or> length it = 1)"

section \<open>visualization/events: the event bus\<close>

text \<open>
  A Python dictionary whose order matters is an association list with distinct keys, in
  insertion order: \<open>d.get(k)\<close>, \<open>d[k] = v\<close> and \<open>del d[k]\<close>.
\<close>

definition dict_get :: "('k \<times> 'v) list \<Rightarrow> 'k \<Rightarrow> 'v option" where
  "dict_get d k = map_of d k"

definition dict_set :: "('k \<times> 'v) list \<Rightarrow> 'k \<Rightarrow> 'v \<Rightarrow> ('k \<times> 'v) list" where
  "dict_set d k v =
     (if k \<in> fst ` set d then map (\<lambda>(k', v'). if k' = k then (k', v) else (k', v')) d
      else d @ [(k, v)])"

definition dict_del :: "('k \<times> 'v) list \<Rightarrow> 'k \<Rightarrow> ('k \<times> 'v) list" where
  "dict_del d k = filter (\<lambda>(k', v'). k' \<noteq> k) d"

datatype EventType =
    ENV_RESET | ENV_STEP | POLICY_DECISION | SAFETY_VIOLATION | TRAINING_ITERATION
  | TRAINING_EPISODE_START | TRAINING_EPISODE_END | TRAINING_COMMAND | SCENARIO_COMMAND

text \<open>\<open>EventData\<close>; the free-form \<open>data\<close> dictionary is a type parameter.\<close>

record 'd event_data =
  ev_timestamp :: real
  event_type :: EventType
  ev_data :: 'd

text \<open>
  A subscriber callback acts on the state \<open>'w\<close> of the program outside the bus and either
  returns or raises; in both cases it leaves a state behind.
\<close>

datatype 'w outcome = Returned 'w | Raised 'w

type_synonym ('d, 'w) callback = "'d event_data \<Rightarrow> 'w \<Rightarrow> 'w outcome"

text \<open>A filter function returns a truth value or raises (\<open>None\<close>).\<close>

type_synonym 'd event_filter = "'d event_data \<Rightarrow> bool option"

text \<open>
  The fields of \<open>EventBus\<close>. The two subscriber tables map an event type to a dictionary
  from subscription id to callback. The lock and the executor are not state of the model:
  every task handed to \<open>self._executor.submit\<close> is run to its end at the point of
  submission, one task after the other.
\<close>

record ('d, 'w) event_bus =
  subscribers :: "(EventType \<times> (string \<times> ('d, 'w) callback) list) list"
  async_subscribers :: "(EventType \<times> (string \<times> ('d, 'w) callback) list) list"
  event_history :: "'d event_data list"
  max_history :: nat
  rate_limit :: int
  rate_counter :: int
  rate_window_start :: real
  running :: bool
  filters :: "(string \<times> 'd event_filter) list"

text \<open>\<open>EventBus.__init__\<close>, at clock reading \<open>now\<close>.\<close>

definition EventBus_init :: "nat \<Rightarrow> int \<Rightarrow> real \<Rightarrow> ('d, 'w) event_bus" where
  "EventBus_init maxh rate now =
     \<lparr>subscribers = [], async_subscribers = [], event_history = [], max_history = maxh,
      rate_limit = rate, rate_counter = 0, rate_window_start = now, running = True,
      filters = []\<rparr>"

text \<open>
  \<open>subscribe\<close>: the fresh \<open>uuid4\<close> string and the answer of
  \<open>asyncio.iscoroutinefunction(callback)\<close> are arguments. The tables are
  \<open>defaultdict(dict)\<close>, so the entry of the event type is created when missing.
\<close>

definition table_add ::
  "(EventType \<times> (string \<times> 'c) list) list \<Rightarrow> EventType \<Rightarrow> string \<Rightarrow> 'c
     \<Rightarrow> (EventType \<times> (string \<times> 'c) list) list" where
  "table_add tab et sid cb =
     (case dict_get tab et of
        None \<Rightarrow> dict_set tab et [(sid, cb)]
      | Some subs \<Rightarrow> dict_set tab et (dict_set subs sid cb))"

definition subscribe ::
  "string \<Rightarrow> bool \<Rightarrow> EventType \<Rightarrow> ('d, 'w) callback \<Rightarrow> ('d, 'w) event_bus
     \<Rightarrow> string \<times> ('d, 'w) event_bus" where
  "subscribe subscription_id is_coroutine et cb bus =
     (if is_coroutine
      then (subscription_id,
            bus\<lparr>async_subscribers := table_add (async_subscribers bus) et subscription_id cb\<rparr>)
      else (subscription_id,
            bus\<lparr>subscribers := table_add (subscribers bus) et subscription_id cb\<rparr>))"

text \<open>\<open>unsubscribe\<close>: the first event type whose dictionary holds the id loses it.\<close>

fun table_remove ::
  "(EventType \<times> (string \<times> 'c) list) list \<Rightarrow> string
     \<Rightarrow> ((EventType \<times> (string \<times> 'c) list) list) option" where
  "table_remove [] sid = None"
| "table_remove ((et, subs) # rest) sid =
     (if sid \<in> fst ` set subs then Some ((et, dict_del subs sid) # rest)
      else (case table_remove rest sid of
              None \<Rightarrow> None
            | Some rest' \<Rightarrow> Some ((et, subs) # rest')))"

definition unsubscribe :: "string \<Rightarrow> ('d, 'w) event_bus \<Rightarrow> bool \<times> ('d, 'w) event_bus" where
  "unsubscribe sid bus =
     (case table_remove (subscribers bus) sid of
        Some tab \<Rightarrow> (True, bus\<lparr>subscribers := tab\<rparr>)
      | None \<Rightarrow>
          (case table_remove (async_subscribers bus) sid of
             Some tab \<Rightarrow> (True, bus\<lparr>async_subscribers := tab\<rparr>)
           | None \<Rightarrow> (False, bus)))"

text \<open>\<open>_check_rate_limit\<close>, at clock reading \<open>current_time\<close>.\<close>

definition check_rate_limit :: "real \<Rightarrow> ('d, 'w) event_bus \<Rightarrow> bool \<times> ('d, 'w) event_bus" where
  "check_rate_limit current_time bus =
     (let bus1 = (if current_time - rate_window_start bus \<ge> 1.0
                  then bus\<lparr>rate_counter := 0, rate_window_start := current_time\<rparr>
                  else bus)
      in if rate_counter bus1 \<ge> rate_limit bus1 then (False, bus1)
         else (True, bus1\<lparr>rate_counter := rate_counter bus1 + 1\<rparr>))"

text \<open>\<open>_apply_filters\<close>: a filter that raises is logged and skipped.\<close>

fun run_filters :: "'d event_filter list \<Rightarrow> 'd event_data \<Rightarrow> bool" where
  "run_filters [] ev = True"
| "run_filters (f # fs) ev =
     (case f ev of
        Some False \<Rightarrow> False
      | Some True \<Rightarrow> run_filters fs ev
      | None \<Rightarrow> run_filters fs ev)"

definition apply_filters :: "('d, 'w) event_bus \<Rightarrow> 'd event_data \<Rightarrow> bool" where
  "apply_filters bus ev = run_filters (map snd (filters bus)) ev"

text \<open>
  \<open>_safe_callback\<close> and \<open>_safe_async_callback\<close>: the callback runs inside
  \<open>try ... except Exception\<close>, so a raise is logged and goes no further.
\<close>

definition safe_callback :: "('d, 'w) callback \<Rightarrow> 'd event_data \<Rightarrow> 'w \<Rightarrow> 'w" where
  "safe_callback cb ev w = (case cb ev w of Returned w' \<Rightarrow> w' | Raised w' \<Rightarrow> w')"

definition safe_async_callback :: "('d, 'w) callback \<Rightarrow> 'd event_data \<Rightarrow> 'w \<Rightarrow> 'w" where
  "safe_async_callback cb ev w = (case cb ev w of Returned w' \<Rightarrow> w' | Raised w' \<Rightarrow> w')"

text \<open>
  The loops of \<open>_notify_subscribers\<close> over the copied dictionaries. Besides the state the
  callbacks leave, the model returns the calls made, as pairs of subscription id and event.
\<close>

fun run_callbacks ::
  "(('d, 'w) callback \<Rightarrow> 'd event_data \<Rightarrow> 'w \<Rightarrow> 'w) \<Rightarrow> (string \<times> ('d, 'w) callback) list
     \<Rightarrow> 'd event_data \<Rightarrow> 'w \<Rightarrow> 'w \<times> (string \<times> 'd event_data) list" where
  "run_callbacks safe [] ev w = (w, [])"
| "run_callbacks safe ((sid, cb) # rest) ev w =
     (case run_callbacks safe rest ev (safe cb ev w) of
        (w', calls) \<Rightarrow> (w', (sid, ev) # calls))"

definition subscribers_for ::
  "(EventType \<times> (string \<times> 'c) list) list \<Rightarrow> EventType \<Rightarrow> (string \<times> 'c) list" where
  "subscribers_for tab et = (case dict_get tab et of None \<Rightarrow> [] | Some subs \<Rightarrow> subs)"

definition notify_subscribers ::
  "('d, 'w) event_bus \<Rightarrow> 'd event_data \<Rightarrow> 'w \<Rightarrow> 'w \<times> (string \<times> 'd event_data) list" where
  "notify_subscribers bus ev w =
     (let sync_subscribers = subscribers_for (subscribers bus) (event_type ev);
          async_subs = subscribers_for (async_subscribers bus) (event_type ev)
      in case run_callbacks safe_callback sync_subscribers ev w of
           (w1, calls1) \<Rightarrow>
             (case run_callbacks safe_async_callback async_subs ev w1 of
                (w2, calls2) \<Rightarrow> (w2, calls1 @ calls2)))"

text \<open>\<open>publish\<close>, at clock reading \<open>now\<close>: the bus and the outside state afterwards, and
  the subscriber calls made.\<close>

definition publish ::
  "real \<Rightarrow> 'd event_data \<Rightarrow> ('d, 'w) event_bus \<times> 'w
     \<Rightarrow> (('d, 'w) event_bus \<times> 'w) \<times> (string \<times> 'd event_data) list" where
  "publish now ev st =
     (case st of (bus, w) \<Rightarrow>
        if \<not> running bus then ((bus, w), [])
        else case check_rate_limit now bus of (allowed, bus1) \<Rightarrow>
          if \<not> allowed then ((bus1, w), [])
          else if \<not> apply_filters bus1 ev then ((bus1, w), [])
          else
            let bus2 = bus1\<lparr>event_history :=
                              deque_append (max_history bus1) (event_history bus1) ev\<rparr>
            in case notify_subscribers bus2 ev w of (w', calls) \<Rightarrow> ((bus2, w'), calls))"

text \<open>A sequence of \<open>publish\<close> calls, each with its clock reading.\<close>

fun publish_all ::
  "(real \<times> 'd event_data) list \<Rightarrow> ('d, 'w) event_bus \<times> 'w
     \<Rightarrow> (('d, 'w) event_bus \<times> 'w) \<times> (string \<times> 'd event_data) list" where
  "publish_all [] st = (st, [])"
| "publish_all ((now, ev) # rest) st =
     (case publish now ev st of
        (st1, calls1) \<Rightarrow>
          (case publish_all rest st1 of (st2, calls2) \<Rightarrow> (st2, calls1 @ calls2)))"

text \<open>\<open>shutdown\<close>\<close>

definition shutdown :: "('d, 'w) event_bus \<Rightarrow> ('d, 'w) event_bus" where
  "shutdown bus = bus\<lparr>running := False, subscribers := [], async_subscribers := [],
                       event_history := [], filters := []\<rparr>"

subsection \<open>Auxiliary notions for the event bus proofs\<close>


text \<open>
  Two subscribers on an outside state whose first component is the list of events one of
  them has received: the recording subscriber, which appends the event and returns, and a
  subscriber that raises on every call. \<open>keeps_log\<close> holds of a callback that leaves the
  list alone, however it ends.
\<close>

definition recorder :: "('d, 'd event_data list \<times> 'x) callback" where
  "recorder ev w = (case w of (seen, x) \<Rightarrow> Returned (seen @ [ev], x))"

definition always_raises :: "('d, 'w) callback" where
  "always_raises ev w = Raised w"


text \<open>Calls whose clock readings all lie in the current one-second window of the bus.\<close>

definition in_window :: "('d, 'w) event_bus \<Rightarrow> (real \<times> 'd event_data) list \<Rightarrow> bool" where
  "in_window bus calls \<longleftrightarrow> (\<forall>c \<in> set calls. fst c - rate_window_start bus < 1)"

section \<open>visualization/decision/decision\_tracker.py: the decision tracker\<close>

text \<open>
  \<open>DecisionRecord\<close>; its fields carry the prefix \<open>dr\<close>. Arrays are lists of reals and the
  \<open>confidence_scores\<close> dictionary is a map.
\<close>

record decision_record =
  dr_timestamp :: real
  dr_decision_id :: string
  dr_observation :: "real list"
  dr_action :: "real list"
  dr_policy_logits :: "real list"
  dr_value_estimate :: real
  dr_confidence_scores :: "string \<rightharpoonup> real"
  dr_episode_id :: "string option"
  dr_step_number :: "int option"
  dr_reward :: "real option"
  dr_explanation :: "string option"
  dr_predicted_outcomes :: "(string \<rightharpoonup> real) option"
  dr_attention_weights :: "real list option"

text \<open>
  The \<open>policy_output\<close> and \<open>context\<close> dictionaries of \<open>log_decision\<close>, with the keys it
  reads; \<open>None\<close> is an absent key.
\<close>

record policy_output =
  action_logits :: "real list option"
  vf_preds :: "real list option"
  confidence_scores :: "(string \<rightharpoonup> real) option"

record decision_context =
  ctx_episode_id :: "string option"
  ctx_step_number :: "int option"
  ctx_reward :: "real option"

text \<open>
  The fields \<open>max_decisions\<close>, \<open>_decisions\<close> (oldest first) and \<open>_decision_count\<close> of
  \<open>DecisionTracker\<close>. The subscription to the event bus is not part of this state.
\<close>

record decision_tracker =
  max_decisions :: nat
  decisions :: "decision_record list"
  decision_count :: int

text \<open>\<open>__init__\<close>: \<open>deque(maxlen=max_decisions)\<close> raises on a negative bound.\<close>

definition DecisionTracker_init :: "int \<Rightarrow> py_error + decision_tracker" where
  "DecisionTracker_init m =
     (if m < 0 then Inl ValueError
      else Inr \<lparr>max_decisions = nat m, decisions = [], decision_count = 0\<rparr>)"

text \<open>\<open>f"decision_{self._decision_count}_{int(time.time() * 1000)}"\<close>\<close>

definition make_decision_id :: "int \<Rightarrow> real \<Rightarrow> string" where
  "make_decision_id n now = ''decision_'' @ str_int n @ ''_'' @ str_int (py_int (now * 1000))"

text \<open>
  The \<open>DecisionRecord\<close> that \<open>log_decision\<close> creates from its arguments, the id it made and
  the value estimate it extracted.
\<close>

definition new_record ::
  "string \<Rightarrow> real \<Rightarrow> real list \<Rightarrow> real list \<Rightarrow> policy_output \<Rightarrow> decision_context option
     \<Rightarrow> real \<Rightarrow> decision_record" where
  "new_record decision_id t_stamp observation action pol ctx value_estimate =
     (let policy_logits = (case action_logits pol of None \<Rightarrow> [] | Some l \<Rightarrow> l);
          conf = (case confidence_scores pol of None \<Rightarrow> Map.empty | Some c \<Rightarrow> c);
          episode_id = (case ctx of None \<Rightarrow> None | Some c \<Rightarrow> ctx_episode_id c);
          step_number = (case ctx of None \<Rightarrow> None | Some c \<Rightarrow> ctx_step_number c);
          rew = (case ctx of None \<Rightarrow> None | Some c \<Rightarrow> ctx_reward c)
      in \<lparr>dr_timestamp = t_stamp, dr_decision_id = decision_id,
          dr_observation = observation, dr_action = action,
          dr_policy_logits = policy_logits, dr_value_estimate = value_estimate,
          dr_confidence_scores = conf, dr_episode_id = episode_id,
          dr_step_number = step_number, dr_reward = rew,
          dr_explanation = None, dr_predicted_outcomes = None,
          dr_attention_weights = None\<rparr>)"

text \<open>
  \<open>log_decision\<close>. The two readings of \<open>time.time()\<close> are the arguments \<open>t_id\<close> and
  \<open>t_stamp\<close>. The counter is incremented before \<open>vf_preds[0]\<close> can raise on an empty
  array, so the tracker is returned in both cases.
\<close>

definition log_decision ::
  "real \<Rightarrow> real \<Rightarrow> real list \<Rightarrow> real list \<Rightarrow> policy_output \<Rightarrow> decision_context option
     \<Rightarrow> decision_tracker \<Rightarrow> (py_error + string) \<times> decision_tracker" where
  "log_decision t_id t_stamp observation action pol ctx tr =
     (let tr1 = tr\<lparr>decision_count := decision_count tr + 1\<rparr>;
          decision_id = make_decision_id (decision_count tr1) t_id;
          vf = (case vf_preds pol of None \<Rightarrow> [0.0] | Some v \<Rightarrow> v)
      in case vf of
           [] \<Rightarrow> (Inl IndexError, tr1)
         | value_estimate # _ \<Rightarrow>
             let decision_rec =
                   new_record decision_id t_stamp observation action pol ctx value_estimate
             in (Inr decision_id,
                 tr1\<lparr>decisions := deque_append (max_decisions tr1) (decisions tr1) decision_rec\<rparr>))"

text \<open>\<open>get_decision_history\<close>: most recent first, cut by \<open>decisions[:limit]\<close>.\<close>

definition get_decision_history :: "int option \<Rightarrow> decision_tracker \<Rightarrow> decision_record list" where
  "get_decision_history limit tr =
     (case limit of
        None \<Rightarrow> rev (decisions tr)
      | Some l \<Rightarrow> slice_first l (rev (decisions tr)))"

text \<open>\<open>get_decision_by_id\<close>: the first record of the buffer with that id.\<close>

definition get_decision_by_id :: "string \<Rightarrow> decision_tracker \<Rightarrow> decision_record option" where
  "get_decision_by_id decision_id tr =
     find (\<lambda>d. dr_decision_id d = decision_id) (decisions tr)"

text \<open>\<open>get_recent_decisions\<close>, at clock reading \<open>now\<close>.\<close>

definition get_recent_decisions :: "real \<Rightarrow> real \<Rightarrow> decision_tracker \<Rightarrow> decision_record list" where
  "get_recent_decisions now seconds tr =
     (let cutoff_time = now - seconds
      in rev (filter (\<lambda>d. dr_timestamp d \<ge> cutoff_time) (decisions tr)))"

text \<open>
  The dictionary \<open>get_statistics\<close> returns; \<open>time_range\<close> holds start, end and duration.
  With an empty buffer the source returns zeros and no \<open>confidence_std\<close> key.
\<close>

record statistics =
  total_decisions :: int
  buffer_size :: int
  time_range :: "(real \<times> real \<times> real) option"
  average_confidence :: "real option"
  confidence_std :: "real option"

definition decision_confidence :: "decision_record \<Rightarrow> real option" where
  "decision_confidence d =
     (case dr_confidence_scores d ''action_confidence'' of
        Some c \<Rightarrow> Some c
      | None \<Rightarrow> dr_confidence_scores d ''max_probability'')"

definition get_statistics :: "decision_tracker \<Rightarrow> statistics" where
  "get_statistics tr =
     (if decisions tr = []
      then \<lparr>total_decisions = 0, buffer_size = 0, time_range = None,
            average_confidence = None, confidence_std = None\<rparr>
      else
        let ds = decisions tr;
            timestamps = map dr_timestamp ds;
            confidences = List.map_filter decision_confidence ds
        in \<lparr>total_decisions = decision_count tr,
            buffer_size = int (length ds),
            time_range = Some (py_min timestamps, py_max timestamps,
                               py_max timestamps - py_min timestamps),
            average_confidence = (if confidences \<noteq> [] then Some (np_mean confidences) else None),
            confidence_std = (if confidences \<noteq> [] then Some (np_std confidences) else None)\<rparr>)"

text \<open>\<open>clear_history\<close>\<close>

definition clear_history :: "decision_tracker \<Rightarrow> decision_tracker" where
  "clear_history tr = tr\<lparr>decisions := [], decision_count := 0\<rparr>"

text \<open>
  A sequence of \<open>log_decision\<close> calls, each with its arguments and clock readings, and
  what each call returned.
\<close>

record log_call =
  lc_t_id :: real
  lc_t_stamp :: real
  lc_observation :: "real list"
  lc_action :: "real list"
  lc_policy_output :: policy_output
  lc_context :: "decision_context option"

fun log_all ::
  "log_call list \<Rightarrow> decision_tracker \<Rightarrow> (py_error + string) list \<times> decision_tracker" where
  "log_all [] tr = ([], tr)"
| "log_all (c # cs) tr =
     (case log_decision (lc_t_id c) (lc_t_stamp c) (lc_observation c) (lc_action c)
             (lc_policy_output c) (lc_context c) tr of
        (r, tr1) \<Rightarrow> (case log_all cs tr1 of (rs, tr2) \<Rightarrow> (r # rs, tr2)))"

subsection \<open>Auxiliary notions for the tracker proofs\<close>

text \<open>The calls on which \<open>log_decision\<close> returns: \<open>vf_preds\<close> is absent or non-empty.\<close>

definition call_returns :: "log_call \<Rightarrow> bool" where
  "call_returns c \<longleftrightarrow> vf_preds (lc_policy_output c) \<noteq> Some []"

text \<open>The last \<open>m\<close> elements of a list.\<close>

definition keep_last :: "nat \<Rightarrow> 'a list \<Rightarrow> 'a list" where
  "keep_last m xs = drop (length xs - m) xs"

text \<open>The ids that a run of returning \<open>log_decision\<close> calls hands out, from counter \<open>n\<close> on.\<close>

fun new_ids :: "int \<Rightarrow> log_call list \<Rightarrow> string list" where
  "new_ids n [] = []"
| "new_ids n (c # cs) = make_decision_id (n + 1) (lc_t_id c) # new_ids (n + 1) cs"

section \<open>visualization/reasoning/safety\_analyzer.py: the safety analyzer\<close>

datatype ViolationType =
  LOSS_OF_SEPARATION | NEAR_MISS | ALTITUDE_DEVIATION | SECTOR_BOUNDARY_VIOLATION

datatype ViolationSeverity = LOW | MEDIUM | HIGH | CRITICAL

text \<open>\<open>ViolationType(s)\<close> and \<open>ViolationSeverity(s)\<close>: the member with that value, or a raise.\<close>

definition parse_violation_type :: "string \<Rightarrow> py_error + ViolationType" where
  "parse_violation_type s =
     (if s = ''loss_of_separation'' then Inr LOSS_OF_SEPARATION
      else if s = ''near_miss'' then Inr NEAR_MISS
      else if s = ''altitude_deviation'' then Inr ALTITUDE_DEVIATION
      else if s = ''sector_boundary_violation'' then Inr SECTOR_BOUNDARY_VIOLATION
      else Inl ValueError)"

definition parse_severity :: "string \<Rightarrow> py_error + ViolationSeverity" where
  "parse_severity s =
     (if s = ''low'' then Inr LOW
      else if s = ''medium'' then Inr MEDIUM
      else if s = ''high'' then Inr HIGH
      else if s = ''critical'' then Inr CRITICAL
      else Inl ValueError)"

text \<open>The \<open>environmental_factors\<close> dictionary; \<open>None\<close> is an absent key.\<close>

record env_factors =
  aircraft_count :: "int option"
  separation_criticality :: "real option"
  vertical_separation_insufficient :: "bool option"
  altitude_separation_ratio :: "real option"

text \<open>\<open>SafetyViolation\<close>; the fields it shares by name with other classes carry the prefix
  \<open>sv\<close>.\<close>

record safety_violation =
  violation_id :: string
  sv_timestamp :: real
  violation_type :: ViolationType
  severity :: ViolationSeverity
  aircraft_involved :: "string list"
  separation_distance :: real
  minimum_separation :: real
  altitude_separation :: real
  time_to_violation :: real
  preventability_score :: real
  controller_response_time :: real
  sv_episode_id :: "string option"
  sv_step_number :: "int option"
  contributing_decisions :: "string list option"
  root_causes :: "string list option"
  environmental_factors :: "env_factors option"

text \<open>The thresholds that \<open>SafetyAnalyzer.__init__\<close> assigns.\<close>

definition minimum_separation_nm :: real where
  "minimum_separation_nm = 5.0"

definition near_miss_threshold_nm :: real where
  "near_miss_threshold_nm = 3.0"

definition vertical_separation_ft :: real where
  "vertical_separation_ft = 1000.0"

definition lookback_seconds :: real where
  "lookback_seconds = 300.0"

text \<open>
  The fields \<open>_violations\<close> (a deque of bound 1000, oldest first), \<open>_violation_count\<close> and
  \<open>analysis_window_hours\<close> of \<open>SafetyAnalyzer\<close>. The decision tracker it reads is an
  argument of the functions below.
\<close>

record safety_analyzer =
  violations :: "safety_violation list"
  violation_count :: int
  analysis_window_hours :: real

text \<open>\<open>_get_relevant_decisions\<close>; \<open>list.sort\<close> is stable, as \<open>sort_key\<close> is.\<close>

definition get_relevant_decisions ::
  "safety_violation \<Rightarrow> decision_tracker \<Rightarrow> decision_record list" where
  "get_relevant_decisions violation tracker =
     (let lookback_start = sv_timestamp violation - lookback_seconds;
          all_decisions = get_decision_history None tracker;
          relevant_decisions =
            filter (\<lambda>d. lookback_start \<le> dr_timestamp d
                        \<and> dr_timestamp d \<le> sv_timestamp violation) all_decisions
      in sort_key dr_timestamp relevant_decisions)"

text \<open>
  The loop \<open>for i in range(1, len(actions))\<close> of \<open>_identify_root_causes\<close>, which collects
  \<open>np.linalg.norm(actions[i] - actions[i-1])\<close> and raises where the subtraction does.
\<close>

fun action_changes :: "real list list \<Rightarrow> py_error + real list" where
  "action_changes [] = Inr []"
| "action_changes [a] = Inr []"
| "action_changes (a # b # rest) =
     (case np_sub b a of
        Inl e \<Rightarrow> Inl e
      | Inr d \<Rightarrow>
          (case action_changes (b # rest) of
             Inl e \<Rightarrow> Inl e
           | Inr changes \<Rightarrow> Inr (np_norm d # changes)))"

text \<open>
  The four heuristics of \<open>_identify_root_causes\<close>, each as the list of findings it appends.
  The first, second and fourth read \<open>recent_decisions\<close>, the third all decisions.
\<close>

definition erratic_finding :: "decision_record list \<Rightarrow> py_error + string list" where
  "erratic_finding recent_decisions =
     (if length recent_decisions > 3 then
        (case action_changes (map dr_action recent_decisions) of
           Inl e \<Rightarrow> Inl e
         | Inr changes \<Rightarrow>
             if changes \<noteq> [] then
               (let avg_change = np_mean changes; std_change = np_std changes
                in if std_change > avg_change * 0.8
                   then Inr [''Erratic control behavior - high action variability'']
                   else Inr [])
             else Inr [])
      else Inr [])"

definition low_confidence_finding :: "decision_record list \<Rightarrow> string list" where
  "low_confidence_finding recent_decisions =
     (let low_confidence_count =
            length (filter (\<lambda>d. case dr_confidence_scores d ''action_confidence'' of
                                   None \<Rightarrow> False
                                 | Some c \<Rightarrow> c < 0.5) recent_decisions)
      in if real low_confidence_count > real (length recent_decisions) * 0.5
         then [''Multiple low-confidence decisions preceding violation'']
         else [])"

definition delayed_finding :: "decision_record list \<Rightarrow> string list" where
  "delayed_finding decs =
     (let warning_decisions =
            filter (\<lambda>d. case dr_reward d of None \<Rightarrow> False | Some r \<Rightarrow> r < - 0.5) decs
      in if warning_decisions \<noteq> [] \<and> length warning_decisions > 2
         then [''Delayed response to safety warnings'']
         else [])"

definition conflicting_finding :: "decision_record list \<Rightarrow> string list" where
  "conflicting_finding recent_decisions =
     (if length recent_decisions > 1 then
        (let value_estimates = map dr_value_estimate recent_decisions
         in if length value_estimates > 1 then
              (if np_var value_estimates > 1.0
               then [''Conflicting objective priorities'']
               else [])
            else [])
      else [])"

definition identify_root_causes ::
  "safety_violation \<Rightarrow> decision_record list \<Rightarrow> py_error + string list" where
  "identify_root_causes violation decs =
     (if decs = [] then Inr [''Insufficient decision history for analysis'']
      else
        let recent_decisions = slice_last 10 decs
        in case erratic_finding recent_decisions of
             Inl e \<Rightarrow> Inl e
           | Inr erratic \<Rightarrow>
               let causes = erratic @ low_confidence_finding recent_decisions
                              @ delayed_finding decs @ conflicting_finding recent_decisions
               in if causes = []
                  then Inr [''Complex multi-factor scenario requiring further analysis'']
                  else Inr causes)"

text \<open>\<open>_calculate_preventability\<close>: the mean of the factors that have data.\<close>

definition calculate_preventability :: "safety_violation \<Rightarrow> decision_record list \<Rightarrow> real" where
  "calculate_preventability violation decs =
     (if decs = [] then 0.0
      else
        let time_factors =
              (if time_to_violation violation > 0
               then [min (time_to_violation violation / 60.0) 1.0] else []);
            recent_decisions = slice_last 5 decs;
            confidences =
              List.map_filter (\<lambda>d. dr_confidence_scores d ''action_confidence'') recent_decisions;
            confidence_factors = (if confidences \<noteq> [] then [np_mean confidences] else []);
            consistency_factors =
              (if length decs > 3
               then [1.0 - min (np_std (map (\<lambda>d. np_norm (dr_action d)) (slice_last 5 decs)) / 2.0)
                               1.0]
               else []);
            warnings = filter (\<lambda>d. case dr_reward d of None \<Rightarrow> False | Some r \<Rightarrow> r < - 0.3) decs;
            total_warnings = length warnings;
            warning_responses = length (filter (\<lambda>d. np_norm (dr_action d) > 0.1) warnings);
            warning_factors =
              (if total_warnings > 0 then [real warning_responses / real total_warnings] else []);
            preventability_factors =
              time_factors @ confidence_factors @ consistency_factors @ warning_factors
        in if preventability_factors \<noteq> [] then np_mean preventability_factors else 0.5)"

text \<open>
  The loop of \<open>_analyze_controller_response\<close> on \<open>first_warning_time\<close>; it returns the two
  times when it ends, by \<open>break\<close> or at the end of the list.
\<close>

fun response_loop :: "decision_record list \<Rightarrow> real option \<Rightarrow> real option \<times> real option" where
  "response_loop [] first_warning_time = (first_warning_time, None)"
| "response_loop (d # ds) first_warning_time =
     (if (case dr_reward d of None \<Rightarrow> False | Some r \<Rightarrow> r < - 0.5) then
        (let fw = (case first_warning_time of
                     None \<Rightarrow> Some (dr_timestamp d)
                   | Some t \<Rightarrow> Some t)
         in if np_norm (dr_action d) > 0.2 then (fw, Some (dr_timestamp d))
            else response_loop ds fw)
      else response_loop ds first_warning_time)"

definition analyze_controller_response :: "safety_violation \<Rightarrow> decision_record list \<Rightarrow> real" where
  "analyze_controller_response violation decs =
     (if decs = [] then 0.0
      else case response_loop decs None of
             (Some first_warning_time, Some first_response_time) \<Rightarrow>
               first_response_time - first_warning_time
           | _ \<Rightarrow> 0.0)"

definition analyze_environmental_factors :: "safety_violation \<Rightarrow> env_factors" where
  "analyze_environmental_factors violation =
     (let f0 = \<lparr>aircraft_count = Some (int (length (aircraft_involved violation))),
                separation_criticality = None, vertical_separation_insufficient = None,
                altitude_separation_ratio = None\<rparr>;
          f1 = (if separation_distance violation > 0
                then f0\<lparr>separation_criticality :=
                          Some (max 0.0 (1.0 - separation_distance violation / minimum_separation_nm))\<rparr>
                else f0)
      in if altitude_separation violation < vertical_separation_ft
         then f1\<lparr>vertical_separation_insufficient := Some True,
                 altitude_separation_ratio :=
                   Some (altitude_separation violation / vertical_separation_ft)\<rparr>
         else f1)"

text \<open>\<open>analyze_violation\<close>, reading the decisions of the given tracker.\<close>

definition analyze_violation ::
  "safety_violation \<Rightarrow> decision_tracker \<Rightarrow> py_error + safety_violation" where
  "analyze_violation violation tracker =
     (let relevant_decisions = get_relevant_decisions violation tracker
      in case identify_root_causes violation relevant_decisions of
           Inl e \<Rightarrow> Inl e
         | Inr causes \<Rightarrow>
             let preventability = calculate_preventability violation relevant_decisions;
                 response_time = analyze_controller_response violation relevant_decisions
             in Inr (violation
                  \<lparr>contributing_decisions := Some (map dr_decision_id relevant_decisions),
                   root_causes := Some causes,
                   preventability_score := preventability,
                   controller_response_time := response_time,
                   environmental_factors := Some (analyze_environmental_factors violation)\<rparr>))"

text \<open>\<open>_calculate_safety_score\<close>\<close>

definition severity_penalty :: "ViolationSeverity \<Rightarrow> real" where
  "severity_penalty s =
     (if s = CRITICAL then 20.0
      else if s = HIGH then 10.0
      else if s = MEDIUM then 5.0
      else 2.0)"

definition calculate_safety_score :: "safety_violation list \<Rightarrow> real \<Rightarrow> real" where
  "calculate_safety_score vs duration_hours =
     (if duration_hours \<le> 0 then 100.0
      else
        let base_score = 100.0;
            violation_penalty = foldl (\<lambda>p v. p + severity_penalty (severity v)) 0.0 vs;
            normalized_penalty = violation_penalty / max duration_hours 1.0
        in max 0.0 (base_score - normalized_penalty))"

text \<open>
  The \<open>data\<close> dictionary of a safety-violation event, with the keys the handler reads, and
  \<open>_handle_safety_violation_event\<close>: any exception inside it is printed and dropped, and
  the analyzer stays as it was.
\<close>

record violation_event_data =
  ved_violation_type :: "string option"
  ved_severity :: "string option"
  ved_aircraft_involved :: "string list option"
  ved_separation_distance :: "real option"
  ved_minimum_separation :: "real option"
  ved_altitude_separation :: "real option"

definition get_or :: "'a option \<Rightarrow> 'a \<Rightarrow> 'a" where
  "get_or v dflt = (case v of None \<Rightarrow> dflt | Some x \<Rightarrow> x)"

definition handle_safety_violation_event ::
  "violation_event_data event_data \<Rightarrow> decision_tracker \<Rightarrow> safety_analyzer \<Rightarrow> safety_analyzer" where
  "handle_safety_violation_event ev tracker an =
     (let d = ev_data ev
      in case parse_violation_type (get_or (ved_violation_type d) ''loss_of_separation'') of
           Inl e \<Rightarrow> an
         | Inr vt \<Rightarrow>
             (case parse_severity (get_or (ved_severity d) ''medium'') of
                Inl e \<Rightarrow> an
              | Inr sev \<Rightarrow>
                  let violation =
                        \<lparr>violation_id = ''violation_'' @ str_int (violation_count an) @ ''_''
                                          @ str_int (py_int (ev_timestamp ev * 1000)),
                         sv_timestamp = ev_timestamp ev,
                         violation_type = vt,
                         severity = sev,
                         aircraft_involved = get_or (ved_aircraft_involved d) [],
                         separation_distance = get_or (ved_separation_distance d) 0.0,
                         minimum_separation = get_or (ved_minimum_separation d) minimum_separation_nm,
                         altitude_separation = get_or (ved_altitude_separation d) 0.0,
                         time_to_violation = 0.0,
                         preventability_score = 0.0,
                         controller_response_time = 0.0,
                         sv_episode_id = None,
                         sv_step_number = None,
                         contributing_decisions = Some [],
                         root_causes = Some [],
                         environmental_factors =
                           Some \<lparr>aircraft_count = None, separation_criticality = None,
                                  vertical_separation_insufficient = None,
                                  altitude_separation_ratio = None\<rparr>\<rparr>
                  in case analyze_violation violation tracker of
                       Inl e \<Rightarrow> an
                     | Inr analyzed_violation \<Rightarrow>
                         an\<lparr>violations := deque_append 1000 (violations an) analyzed_violation,
                            violation_count := violation_count an + 1\<rparr>))"

text \<open>\<open>get_violation_history\<close>: most recent first.\<close>

definition get_violation_history :: "int option \<Rightarrow> safety_analyzer \<Rightarrow> safety_violation list" where
  "get_violation_history limit an =
     (case limit of
        None \<Rightarrow> rev (violations an)
      | Some l \<Rightarrow> slice_first l (rev (violations an)))"

subsection \<open>Auxiliary notions for the safety analyzer proofs\<close>

text \<open>A violation list with every severity replaced by one value.\<close>

definition with_severity :: "ViolationSeverity \<Rightarrow> safety_violation list \<Rightarrow> safety_violation list" where
  "with_severity s vs = map (\<lambda>v. v\<lparr>severity := s\<rparr>) vs"


section \<open>visualization/reasoning/pattern\_analyzer.py: the pattern analyzer\<close>

datatype PatternType =
    OSCILLATION | CONVERGENCE | DIVERGENCE | PERIODIC | ANOMALY | REGRESSION | IMPROVEMENT
  | STABILITY

text \<open>\<open>PatternSeverity\<close>; its member \<open>CRITICAL\<close> is written \<open>CRITICAL_PATTERN\<close>.\<close>

datatype PatternSeverity = BENIGN | NOTABLE | CONCERNING | CRITICAL_PATTERN

text \<open>\<open>BehaviorPattern\<close>; the fields it shares by name with other classes carry the prefix
  \<open>bp\<close>.\<close>

record behavior_pattern =
  pattern_id :: string
  bp_timestamp :: real
  pattern_type :: PatternType
  bp_severity :: PatternSeverity
  duration_seconds :: real
  confidence_score :: real
  statistical_significance :: real
  effect_size :: real
  affected_metrics :: "string list"
  episode_range :: "int \<times> int"
  bp_decision_count :: int
  description :: string
  recommendations :: "string list"
  frequency :: "real option"
  amplitude :: "real option"
  trend_slope :: "real option"
  related_patterns :: "string list option"

text \<open>\<open>PerformanceMetrics\<close>; its field \<open>confidence_std\<close> is written \<open>pm_confidence_std\<close>.\<close>

record performance_metrics =
  start_time :: real
  end_time :: real
  episode_start :: int
  episode_end :: int
  mean_reward :: real
  reward_std :: real
  reward_trend :: real
  mean_confidence :: real
  pm_confidence_std :: real
  decision_consistency :: real
  safety_violations :: int
  mean_separation :: real
  action_magnitude_mean :: real
  action_changes_per_episode :: real
  value_estimate_accuracy :: real
  policy_entropy :: real

text \<open>
  \<open>getattr(metrics, metric_name)\<close> under \<open>hasattr(metrics, metric_name)\<close>, for the names of
  the fields of the dataclass; any other name counts as absent.
\<close>

definition metric_value :: "string \<Rightarrow> performance_metrics \<Rightarrow> real option" where
  "metric_value name m =
     (if name = ''start_time'' then Some (start_time m)
      else if name = ''end_time'' then Some (end_time m)
      else if name = ''episode_start'' then Some (real_of_int (episode_start m))
      else if name = ''episode_end'' then Some (real_of_int (episode_end m))
      else if name = ''mean_reward'' then Some (mean_reward m)
      else if name = ''reward_std'' then Some (reward_std m)
      else if name = ''reward_trend'' then Some (reward_trend m)
      else if name = ''mean_confidence'' then Some (mean_confidence m)
      else if name = ''confidence_std'' then Some (pm_confidence_std m)
      else if name = ''decision_consistency'' then Some (decision_consistency m)
      else if name = ''safety_violations'' then Some (real_of_int (safety_violations m))
      else if name = ''mean_separation'' then Some (mean_separation m)
      else if name = ''action_magnitude_mean'' then Some (action_magnitude_mean m)
      else if name = ''action_changes_per_episode'' then Some (action_changes_per_episode m)
      else if name = ''value_estimate_accuracy'' then Some (value_estimate_accuracy m)
      else if name = ''policy_entropy'' then Some (policy_entropy m)
      else None)"

text \<open>
  The fields \<open>_patterns\<close> (a deque of bound 500, oldest first), \<open>_pattern_count\<close>,
  \<open>_performance_history\<close>, \<open>analysis_window_episodes\<close> and \<open>anomaly_threshold\<close> of
  \<open>PatternAnalyzer\<close>.
\<close>

record pattern_analyzer =
  patterns :: "behavior_pattern list"
  pattern_count :: int
  performance_history :: "performance_metrics list"
  analysis_window_episodes :: int
  anomaly_threshold :: real

text \<open>
  What the module takes from outside the repository and the model takes as parameters:
  \<open>scipy.stats.norm.sf\<close>, the formatting of a float to a number of decimals in an
  f-string, and the four analysis passes \<open>_analyze_reward_patterns\<close>,
  \<open>_analyze_decision_patterns\<close>, \<open>_analyze_safety_patterns\<close> and
  \<open>_analyze_learning_patterns\<close>, whose results rest on \<open>scipy.stats.linregress\<close> and
  \<open>scipy.signal.find_peaks\<close>. A pass reads the analyzer and the metrics and returns its
  patterns or raises.
\<close>

record py_lib =
  norm_sf :: "real \<Rightarrow> real"
  format_float :: "nat \<Rightarrow> real \<Rightarrow> string"

type_synonym analysis_pass =
  "pattern_analyzer \<Rightarrow> performance_metrics list \<Rightarrow> py_error + behavior_pattern list"

record analysis_passes =
  analyze_reward_patterns :: analysis_pass
  analyze_decision_patterns :: analysis_pass
  analyze_safety_patterns :: analysis_pass
  analyze_learning_patterns :: analysis_pass

text \<open>\<open>_classify_anomaly_severity\<close>\<close>

definition classify_anomaly_severity :: "real \<Rightarrow> PatternSeverity" where
  "classify_anomaly_severity z_score =
     (if z_score > 4.0 then CRITICAL_PATTERN
      else if z_score > 3.0 then CONCERNING
      else if z_score > 2.5 then NOTABLE
      else BENIGN)"

text \<open>
  The storing loop of \<open>analyze_recent_performance\<close>: each pattern is appended to
  \<open>_patterns\<close> and counted.
\<close>

fun store_patterns :: "behavior_pattern list \<Rightarrow> pattern_analyzer \<Rightarrow> pattern_analyzer" where
  "store_patterns [] an = an"
| "store_patterns (p # ps) an =
     store_patterns ps
       (an\<lparr>patterns := deque_append 500 (patterns an) p,
           pattern_count := pattern_count an + 1\<rparr>)"

text \<open>\<open>analyze_recent_performance\<close>: what it returns (or raises) and the analyzer afterwards.\<close>

definition analyze_recent_performance ::
  "analysis_passes \<Rightarrow> int option \<Rightarrow> pattern_analyzer
     \<Rightarrow> (py_error + behavior_pattern list) \<times> pattern_analyzer" where
  "analyze_recent_performance passes episodes_arg an =
     (let episodes = (case episodes_arg of None \<Rightarrow> analysis_window_episodes an | Some e \<Rightarrow> e);
          recent_metrics = slice_last episodes (performance_history an)
      in if length recent_metrics < 10 then (Inr [], an)
         else case analyze_reward_patterns passes an recent_metrics of
           Inl e \<Rightarrow> (Inl e, an)
         | Inr reward_patterns \<Rightarrow>
         (case analyze_decision_patterns passes an recent_metrics of
           Inl e \<Rightarrow> (Inl e, an)
         | Inr decision_patterns \<Rightarrow>
         (case analyze_safety_patterns passes an recent_metrics of
           Inl e \<Rightarrow> (Inl e, an)
         | Inr safety_patterns \<Rightarrow>
         (case analyze_learning_patterns passes an recent_metrics of
           Inl e \<Rightarrow> (Inl e, an)
         | Inr learning_patterns \<Rightarrow>
             let detected_patterns = reward_patterns @ decision_patterns @ safety_patterns
                                       @ learning_patterns
             in (Inr detected_patterns, store_patterns detected_patterns an)))))"

text \<open>
  The loop \<open>for i, z_score in enumerate(z_scores)\<close> of \<open>detect_anomalies\<close>, from index \<open>i\<close>
  on, with \<open>self._pattern_count\<close> as \<open>count\<close>. \<open>clock i\<close> gives the two readings of
  \<open>time.time()\<close> in round \<open>i\<close>; \<open>n\<close> is \<open>len(recent_metrics)\<close>. It returns the anomaly
  patterns and the counter.
\<close>

fun anomaly_loop ::
  "py_lib \<Rightarrow> (nat \<Rightarrow> real \<times> real) \<Rightarrow> string \<Rightarrow> nat \<Rightarrow> real \<Rightarrow> nat \<Rightarrow> (real \<times> real) list \<Rightarrow> int
     \<Rightarrow> behavior_pattern list \<times> int" where
  "anomaly_loop lib clock metric_name n threshold i [] count = ([], count)"
| "anomaly_loop lib clock metric_name n threshold i ((recent_value, z_score) # rest) count =
     (if z_score > threshold then
        (let anomaly_pattern =
               \<lparr>pattern_id = ''anomaly_'' @ str_int count @ ''_''
                               @ str_int (py_int (fst (clock i) * 1000)),
                bp_timestamp = snd (clock i),
                pattern_type = ANOMALY,
                bp_severity = classify_anomaly_severity z_score,
                duration_seconds = 0.0,
                confidence_score = min (z_score / 5.0) 1.0,
                statistical_significance = norm_sf lib z_score * 2,
                effect_size = z_score,
                affected_metrics = [metric_name],
                episode_range = (int n - 10 + int i, int n - 10 + int i),
                bp_decision_count = 1,
                description = ''Anomalous '' @ metric_name @ '' value: ''
                                @ format_float lib 3 recent_value @ '' (z-score: ''
                                @ format_float lib 2 z_score @ '')'',
                recommendations =
                  [''Investigate cause of anomalous '' @ metric_name @ '' value'',
                   ''Check for environmental changes or training instabilities'',
                   ''Consider adjusting learning rate or other hyperparameters''],
                frequency = None, amplitude = None, trend_slope = None,
                related_patterns = None\<rparr>
         in case anomaly_loop lib clock metric_name n threshold (Suc i) rest (count + 1) of
              (anomalies, count') \<Rightarrow> (anomaly_pattern # anomalies, count'))
      else anomaly_loop lib clock metric_name n threshold (Suc i) rest count)"

text \<open>\<open>detect_anomalies\<close>: the patterns it returns and the analyzer afterwards.\<close>

definition detect_anomalies ::
  "py_lib \<Rightarrow> (nat \<Rightarrow> real \<times> real) \<Rightarrow> string \<Rightarrow> int \<Rightarrow> pattern_analyzer
     \<Rightarrow> behavior_pattern list \<times> pattern_analyzer" where
  "detect_anomalies lib clock metric_name lookback_episodes an =
     (let recent_metrics = slice_last lookback_episodes (performance_history an)
      in if length recent_metrics < 20 then ([], an)
         else
           let vals = List.map_filter (metric_value metric_name) recent_metrics
           in if vals = [] then ([], an)
              else
                let baseline_mean = np_mean (slice_first (- 10) vals);
                    baseline_std = np_std (slice_first (- 10) vals)
                in if baseline_std = 0 then ([], an)
                   else
                     let recent_values = slice_last 10 vals;
                         z_scores = map (\<lambda>v. \<bar>(v - baseline_mean) / baseline_std\<bar>) recent_values
                     in case anomaly_loop lib clock metric_name (length recent_metrics)
                               (anomaly_threshold an) 0 (zip recent_values z_scores)
                               (pattern_count an) of
                          (anomalies, count') \<Rightarrow> (anomalies, an\<lparr>pattern_count := count'\<rparr>))"

text \<open>\<open>get_pattern_summary\<close>, as far as its \<open>total_patterns\<close> entry.\<close>

definition total_patterns :: "pattern_analyzer \<Rightarrow> int" where
  "total_patterns an = int (length (patterns an))"

section \<open>Concrete inputs\<close>

text \<open>
  Two aircraft 0.1 NM apart horizontally and 1200 ft apart vertically (the second without
  an \<open>alive\<close> key), and a third one 4.92 NM and 999 ft away from the first.
\<close>

definition ac_low :: aircraft_state where
  "ac_low = \<lparr>ac_id = ''LOW'', x_nm = 0, y_nm = 0, v_kt = 250, hdg_rad = 0, alt_ft = 10000,
            goal_x_nm = 50, goal_y_nm = 0, alive = Some True, intent_onehot = None\<rparr>"

definition ac_high :: aircraft_state where
  "ac_high = \<lparr>ac_id = ''HIGH'', x_nm = 0.1, y_nm = 0, v_kt = 250, hdg_rad = 0, alt_ft = 11200,
             goal_x_nm = 50, goal_y_nm = 0, alive = None, intent_onehot = None\<rparr>"

definition ac_near :: aircraft_state where
  "ac_near = \<lparr>ac_id = ''NEAR'', x_nm = 3, y_nm = 3.9, v_kt = 250, hdg_rad = 0, alt_ft = 10999,
             goal_x_nm = 50, goal_y_nm = 0, alive = Some True, intent_onehot = None\<rparr>"

text \<open>An aircraft one mile from its goal, alive and after its exit.\<close>

definition ac_exit :: aircraft_state where
  "ac_exit = \<lparr>ac_id = ''EXIT'', x_nm = 0, y_nm = 0, v_kt = 250, hdg_rad = 0, alt_ft = 3000,
             goal_x_nm = 1, goal_y_nm = 0, alive = Some True, intent_onehot = None\<rparr>"

definition ac_gone :: aircraft_state where
  "ac_gone = ac_exit\<lparr>alive := Some False\<rparr>"

text \<open>
  A simulator stub whose every step reports three aircraft in mutual loss of separation,
  and an environment after \<open>reset\<close>.
\<close>

definition sim_three :: "unit \<Rightarrow> command list \<Rightarrow> unit \<times> aircraft_state list" where
  "sim_three s cmds = (s, [ac_low, ac_near, ac_low\<lparr>ac_id := ''TWIN''\<rparr>])"

definition env_ready :: "unit tower_env" where
  "env_ready = \<lparr>env_sim = (), env_horizon = 400, env_alive_mask = replicate 16 0,
                env_last_states = Some [ac_low, ac_near], env_step_count = 0\<rparr>"

text \<open>
  A bus created at clock reading 0 with a subscriber that always raises registered before
  a recording subscriber, the same bus with a rate limit of 2, and three events.
\<close>

definition bus_rec :: "(nat, nat event_data list \<times> unit) event_bus" where
  "bus_rec = snd (subscribe ''rec'' False POLICY_DECISION recorder
               (snd (subscribe ''bad'' False POLICY_DECISION always_raises
                  (EventBus_init 1000 1000 0))))"

definition bus_two :: "(nat, nat event_data list \<times> unit) event_bus" where
  "bus_two = bus_rec\<lparr>rate_limit := 2\<rparr>"

definition ev1 :: "nat event_data" where
  "ev1 = \<lparr>ev_timestamp = 0.1, event_type = POLICY_DECISION, ev_data = 1\<rparr>"

definition ev2 :: "nat event_data" where
  "ev2 = \<lparr>ev_timestamp = 0.2, event_type = POLICY_DECISION, ev_data = 2\<rparr>"

definition ev3 :: "nat event_data" where
  "ev3 = \<lparr>ev_timestamp = 0.3, event_type = POLICY_DECISION, ev_data = 3\<rparr>"

text \<open>
  A \<open>log_decision\<close> call at clock reading \<open>t\<close> with an otherwise empty policy output, and
  fresh trackers of capacity 0 and 2.
\<close>

definition call_at :: "real \<Rightarrow> log_call" where
  "call_at t = \<lparr>lc_t_id = t, lc_t_stamp = t, lc_observation = [t], lc_action = [0],
                lc_policy_output = \<lparr>action_logits = None, vf_preds = None,
                                     confidence_scores = None\<rparr>,
                lc_context = None\<rparr>"

definition tr_zero :: decision_tracker where
  "tr_zero = \<lparr>max_decisions = 0, decisions = [], decision_count = 0\<rparr>"

definition tr_two :: decision_tracker where
  "tr_two = \<lparr>max_decisions = 2, decisions = [], decision_count = 0\<rparr>"

text \<open>
  The violation of the end-to-end example (separation 2.0 NM against a minimum of 5.0,
  severity high), as a record and as the event that reports it at clock reading 1000.
\<close>

definition viol0 :: safety_violation where
  "viol0 = \<lparr>violation_id = ''violation_0_1000000'', sv_timestamp = 1000,
            violation_type = LOSS_OF_SEPARATION, severity = HIGH, aircraft_involved = [],
            separation_distance = 2.0, minimum_separation = 5.0, altitude_separation = 0.0,
            time_to_violation = 0.0, preventability_score = 0.0,
            controller_response_time = 0.0, sv_episode_id = None, sv_step_number = None,
            contributing_decisions = Some [], root_causes = Some [],
            environmental_factors =
              Some \<lparr>aircraft_count = None, separation_criticality = None,
                     vertical_separation_insufficient = None,
                     altitude_separation_ratio = None\<rparr>\<rparr>"

definition viol_event :: "violation_event_data event_data" where
  "viol_event = \<lparr>ev_timestamp = 1000, event_type = SAFETY_VIOLATION,
                 ev_data = \<lparr>ved_violation_type = None, ved_severity = Some ''high'',
                             ved_aircraft_involved = None,
                             ved_separation_distance = Some 2.0,
                             ved_minimum_separation = Some 5.0,
                             ved_altitude_separation = None\<rparr>\<rparr>"

definition analyzer0 :: safety_analyzer where
  "analyzer0 = \<lparr>violations = [], violation_count = 0, analysis_window_hours = 24.0\<rparr>"

text \<open>
  An analyzer whose history holds twenty iterations: mean rewards alternating between 0
  and 2 in the first ten, then nine times 1 and a last value of 10.
\<close>

definition metrics_of :: "real \<Rightarrow> performance_metrics" where
  "metrics_of r =
     \<lparr>start_time = 0, end_time = 30, episode_start = 0, episode_end = 0, mean_reward = r,
      reward_std = 0, reward_trend = 0, mean_confidence = 0.5, pm_confidence_std = 0,
      decision_consistency = 0.5, safety_violations = 0, mean_separation = 10,
      action_magnitude_mean = 0, action_changes_per_episode = 0,
      value_estimate_accuracy = 0.5, policy_entropy = 1\<rparr>"

definition analyzer_twenty :: pattern_analyzer where
  "analyzer_twenty =
     \<lparr>patterns = [], pattern_count = 0,
      performance_history =
        map metrics_of [0, 2, 0, 2, 0, 2, 0, 2, 0, 2, 1, 1, 1, 1, 1, 1, 1, 1, 1, 10],
      analysis_window_episodes = 100, anomaly_threshold = 2.5\<rparr>"

definition lib0 :: py_lib where
  "lib0 = \<lparr>norm_sf = (\<lambda>z. 0), format_float = (\<lambda>digits x. ''x'')\<rparr>"

definition clock0 :: "nat \<Rightarrow> real \<times> real" where
  "clock0 i = (5, 5)"

section \<open>Properties of the separation geometry and the reward engine\<close>

subsection \<open>Evaluating \<open>np.hypot\<close>\<close>

lemma hypot_less_iff: "0 < c \<Longrightarrow> hypot x y < c \<longleftrightarrow> x\<^sup>2 + y\<^sup>2 < c\<^sup>2"
  unfolding hypot_def by (metis real_sqrt_less_iff real_sqrt_abs abs_of_pos)

lemma hypot_0_right: "hypot x 0 = \<bar>x\<bar>"
  by (simp add: hypot_def)

subsection \<open>Counting loss-of-separation pairs\<close>

lemma pair_body_snd: "snd (pair_body ai aj acc) = snd acc + (if los_pair ai aj then 1 else 0)"
  by (cases acc) (simp add: pair_body_def los_pair_def Let_def)

lemma inner_loop_snd:
  "snd (inner_loop ai rest acc) = snd acc + int (length (filter (los_pair ai) rest))"
  by (induction rest arbitrary: acc) (simp_all add: pair_body_snd)

lemma los_pairs_Cons:
  "los_pairs (a # xs) =
     (\<lambda>j. (0, Suc j)) ` {j. j < length xs \<and> los_pair a (xs ! j)}
     \<union> (\<lambda>(i, j). (Suc i, Suc j)) ` los_pairs xs"
proof (rule set_eqI)
  fix p :: "nat \<times> nat"
  obtain i j where p: "p = (i, j)" by (cases p)
  show "p \<in> los_pairs (a # xs) \<longleftrightarrow>
        p \<in> (\<lambda>j. (0, Suc j)) ` {j. j < length xs \<and> los_pair a (xs ! j)}
          \<union> (\<lambda>(i, j). (Suc i, Suc j)) ` los_pairs xs"
  proof (cases i)
    case 0
    then show ?thesis
      unfolding p los_pairs_def by (cases j) (auto simp: image_iff)
  next
    case (Suc i')
    then show ?thesis
      unfolding p los_pairs_def by (cases j) (auto simp: image_iff)
  qed
qed

lemma finite_los_pairs: "finite (los_pairs xs)"
proof -
  have "los_pairs xs \<subseteq> {..<length xs} \<times> {..<length xs}"
    by (auto simp: los_pairs_def)
  then show ?thesis by (rule finite_subset) simp
qed

lemma card_los_pairs_Cons:
  "card (los_pairs (a # xs)) = length (filter (los_pair a) xs) + card (los_pairs xs)"
proof -
  let ?A = "(\<lambda>j. (0::nat, Suc j)) ` {j. j < length xs \<and> los_pair a (xs ! j)}"
  let ?B = "(\<lambda>(i, j). (Suc i, Suc j)) ` los_pairs xs"
  have disj: "?A \<inter> ?B = {}" by auto
  have fA: "finite ?A" by simp
  have fB: "finite ?B" by (simp add: finite_los_pairs)
  have cA: "card ?A = length (filter (los_pair a) xs)"
    by (simp add: card_image inj_on_def length_filter_conv_card)
  have cB: "card ?B = card (los_pairs xs)"
    by (rule card_image) (auto simp: inj_on_def)
  show ?thesis
    unfolding los_pairs_Cons using card_Un_disjoint [OF fA fB disj] cA cB by simp
qed

lemma outer_loop_snd:
  "snd (outer_loop xs acc) = snd acc + int (card (los_pairs xs))"
proof (induction xs arbitrary: acc)
  case Nil
  then show ?case by (simp add: los_pairs_def)
next
  case (Cons a xs)
  then show ?case by (simp add: inner_loop_snd card_los_pairs_Cons)
qed

lemma los_count_card:
  "snd (pairwise_min_separation_nm states) = int (card (los_pairs states))"
  by (simp add: pairwise_min_separation_nm_def outer_loop_snd split: prod.splits)
     (metis outer_loop_snd snd_conv add_0)

lemma pairwise_example_value: "pairwise_min_separation_nm [ac_low, ac_high] = (0.1, 0)"
  by (simp add: pairwise_min_separation_nm_def pair_body_def Let_def get_alive_def
      ac_low_def ac_high_def hypot_0_right)

lemma pairwise_examples:
  "snd (pairwise_min_separation_nm [ac_low, ac_near]) = 1"
  "snd (pairwise_min_separation_nm [ac_low, ac_high, ac_near]) = 2"
  "pairwise_min_separation_nm [ac_low] = (999, 0)"
  by (simp_all add: pairwise_min_separation_nm_def pair_body_def Let_def get_alive_def
      ac_low_def ac_high_def ac_near_def hypot_less_iff power2_eq_square split: prod.splits)

text \<open>
  Claim C1. The second component of \<open>pairwise_min_separation_nm\<close> is the number of index
  pairs \<open>i < j\<close> of live aircraft whose horizontal distance is below 5 NM and whose
  altitudes differ by less than 1000 ft; so when every pair of live aircraft is at least
  1000 ft apart vertically, the count is 0 whatever the horizontal distances.
\<close>

theorem los_count_iff:
  "snd (pairwise_min_separation_nm states)
     = int (card {(i, j). i < j \<and> j < length states
                    \<and> get_alive (states ! i) \<and> get_alive (states ! j)
                    \<and> hypot (x_nm (states ! i) - x_nm (states ! j))
                             (y_nm (states ! i) - y_nm (states ! j)) < 5
                    \<and> \<bar>alt_ft (states ! i) - alt_ft (states ! j)\<bar> < 1000})
   \<and> ((\<forall>i j. i < j \<and> j < length states \<and> get_alive (states ! i) \<and> get_alive (states ! j)
           \<longrightarrow> 1000 \<le> \<bar>alt_ft (states ! i) - alt_ft (states ! j)\<bar>)
        \<longrightarrow> snd (pairwise_min_separation_nm states) = 0)"
proof -
  let ?S = "{(i, j). i < j \<and> j < length states
                    \<and> get_alive (states ! i) \<and> get_alive (states ! j)
                    \<and> hypot (x_nm (states ! i) - x_nm (states ! j))
                             (y_nm (states ! i) - y_nm (states ! j)) < 5
                    \<and> \<bar>alt_ft (states ! i) - alt_ft (states ! j)\<bar> < 1000}"
  have S: "los_pairs states = ?S"
    by (simp add: los_pairs_def los_pair_def)
  have count: "snd (pairwise_min_separation_nm states) = int (card ?S)"
    using los_count_card [of states] by (simp only: S)
  have "snd (pairwise_min_separation_nm states) = 0"
    if "\<forall>i j. i < j \<and> j < length states \<and> get_alive (states ! i) \<and> get_alive (states ! j)
           \<longrightarrow> 1000 \<le> \<bar>alt_ft (states ! i) - alt_ft (states ! j)\<bar>"
  proof -
    have e: "?S = {}" using that by fastforce
    show ?thesis unfolding count e by simp
  qed
  with count show ?thesis by blast
qed

theorem los_count_iff_witness:
  "snd (pairwise_min_separation_nm [ac_low, ac_high]) = 0"
proof -
  have "\<forall>i j. i < j \<and> j < length [ac_low, ac_high]
            \<and> get_alive ([ac_low, ac_high] ! i) \<and> get_alive ([ac_low, ac_high] ! j)
          \<longrightarrow> 1000 \<le> \<bar>alt_ft ([ac_low, ac_high] ! i) - alt_ft ([ac_low, ac_high] ! j)\<bar>"
    by (auto simp: less_Suc_eq ac_low_def ac_high_def)
  with los_count_iff [of "[ac_low, ac_high]"] show ?thesis by blast
qed

subsection \<open>The reward and its components\<close>

lemma catastrophe_reward_comps:
  "catastrophe (reward_comps prev cur m l) = (if l \<ge> 2 then - 10 else 0)"
  by (simp add: reward_comps_def Let_def split: prod.splits)

lemma los_reward_comps: "los (reward_comps prev cur m l) = - 10 * real_of_int l"
  by (simp add: reward_comps_def Let_def split: prod.splits)

lemma near_reward_comps: "near (reward_comps prev cur m l) = (if m < 6 then - 2 else 0)"
  by (simp add: reward_comps_def Let_def NEAR_NM_def split: prod.splits)

lemma smooth_fuel_reward_comps:
  "smooth (reward_comps prev cur m l) = 0" "fuel (reward_comps prev cur m l) = 0"
  by (simp_all add: reward_comps_def Let_def split: prod.splits)

lemma py_sum_comps:
  "py_sum (comps_values c) = los c + near c + progress c + smooth c + fuel c + terminal c + catastrophe c"
  by (simp add: py_sum_def comps_values_def)

lemma reward_examples:
  "compute_reward [] [] 10 3 []
     = (- 20, \<lparr>los = - 30, near = 0, progress = 0, smooth = 0, fuel = 0, terminal = 0,
               catastrophe = - 10\<rparr>)"
  "compute_reward [ac_exit, ac_exit] [ac_gone, ac_gone] 10 0 []
     = (5, \<lparr>los = 0, near = 0, progress = 0, smooth = 0, fuel = 0, terminal = 10,
            catastrophe = 0\<rparr>)"
  by (simp_all add: compute_reward_def reward_comps_def Let_def py_sum_def comps_values_def
      clip_def NEAR_NM_def ac_exit_def ac_gone_def get_alive_def hypot_0_right)

text \<open>
  Claim C2. The scalar that \<open>compute_reward\<close> returns is the sum of the seven returned
  components clipped to \<open>[-20, 5]\<close>, and the returned components are the values before
  clipping: a sum above 5 gives exactly 5, a sum below -20 gives exactly -20, and in both
  cases the scalar differs from the sum of the components.
\<close>

theorem reward_is_clipped_sum:
  "case compute_reward prev_states cur_states min_sep_nm los_count alive_mask of
     (r, comps) \<Rightarrow>
       (let s = los comps + near comps + progress comps + smooth comps + fuel comps
                  + terminal comps + catastrophe comps
        in r = min 5 (max s (- 20)) \<and> - 20 \<le> r \<and> r \<le> 5
           \<and> comps = reward_comps prev_states cur_states min_sep_nm los_count
           \<and> (5 < s \<longrightarrow> r = 5 \<and> r \<noteq> s)
           \<and> (s < - 20 \<longrightarrow> r = - 20 \<and> r \<noteq> s)
           \<and> (- 20 \<le> s \<and> s \<le> 5 \<longrightarrow> r = s))"
  by (simp add: compute_reward_def Let_def py_sum_comps clip_def)

theorem reward_is_clipped_sum_witness:
  "fst (compute_reward [] [] 10 3 []) = - 20
   \<and> py_sum (comps_values (snd (compute_reward [] [] 10 3 []))) = - 40
   \<and> fst (compute_reward [ac_exit, ac_exit] [ac_gone, ac_gone] 10 0 []) = 5
   \<and> py_sum (comps_values (snd (compute_reward [ac_exit, ac_exit] [ac_gone, ac_gone] 10 0 []))) = 10"
proof -
  have lo: "snd (compute_reward [] [] 10 3 [])
      = \<lparr>los = - 30, near = 0, progress = 0, smooth = 0, fuel = 0, terminal = 0,
          catastrophe = - 10\<rparr>"
    by (simp add: reward_examples)
  have hi: "snd (compute_reward [ac_exit, ac_exit] [ac_gone, ac_gone] 10 0 [])
      = \<lparr>los = 0, near = 0, progress = 0, smooth = 0, fuel = 0, terminal = 10,
          catastrophe = 0\<rparr>"
    by (simp add: reward_examples)
  from reward_is_clipped_sum [of "[]" "[]" 10 3 "[]"] lo
  have a: "fst (compute_reward [] [] 10 3 []) = - 20"
    by (simp add: Let_def split: prod.splits)
  from reward_is_clipped_sum [of "[ac_exit, ac_exit]" "[ac_gone, ac_gone]" 10 0 "[]"] hi
  have b: "fst (compute_reward [ac_exit, ac_exit] [ac_gone, ac_gone] 10 0 []) = 5"
    by (simp add: Let_def split: prod.splits)
  from a b lo hi show ?thesis by (simp add: py_sum_comps)
qed

text \<open>
  Claim C10. The \<open>alive_mask\<close> argument of \<open>compute_reward\<close> has no influence on the
  result: any two masks give the same scalar and the same components.
\<close>

theorem alive_mask_ignored:
  "compute_reward prev_states cur_states min_sep_nm los_count m1
     = compute_reward prev_states cur_states min_sep_nm los_count m2"
  by (simp add: compute_reward_def)

subsection \<open>The step of the environment\<close>

lemma step_Inr_D:
  assumes "step sim_step env action = Inr (res, env')"
  shows "\<exists>prev sim' states ob al.
           env_last_states env = Some prev
           \<and> sim_step (env_sim env) (build_cmds 0 (length prev) action (take MAX_AC prev)) = (sim', states)
           \<and> encode_obs (env_step_count env + 1) (env_horizon env) states = Inr (ob, al)
           \<and> r_components (info res)
               = snd (compute_reward prev states (fst (pairwise_min_separation_nm states))
                        (snd (pairwise_min_separation_nm states)) al)
           \<and> info_los (info res) = snd (pairwise_min_separation_nm states)
           \<and> terminated res = (py_sum al = 0 \<or> catastrophe (r_components (info res)) < 0)
           \<and> truncated res = (env_step_count env + 1 \<ge> env_horizon env)"
  using assms
  by (auto simp: step_def Let_def split: if_splits option.splits prod.splits sum.splits)

lemma encode_row_returns: "intent_ok ac \<Longrightarrow> \<exists>row. encode_row ac = Inr row"
  by (auto simp: intent_ok_def encode_row_def intent_cells_def Let_def min_def
      split: option.splits)

lemma encode_rows_returns:
  "list_all intent_ok acs \<Longrightarrow> \<exists>rows. encode_rows acs = Inr rows"
proof (induction acs)
  case Nil
  then show ?case by simp
next
  case (Cons ac acs)
  then obtain row rows where "encode_row ac = Inr row" "encode_rows acs = Inr rows"
    using encode_row_returns by fastforce
  then show ?case by simp
qed

lemma encode_obs_returns:
  assumes "list_all intent_ok (take MAX_AC states)" "h \<noteq> 0"
  shows "\<exists>ob. encode_obs c h states
           = Inr (ob, map (\<lambda>ac. if get_alive ac then 1 else 0) (take MAX_AC states)
                        @ replicate (MAX_AC - length (take MAX_AC states)) 0)"
proof -
  obtain rows where "encode_rows (take MAX_AC states) = Inr rows"
    using encode_rows_returns [OF assms(1)] by blast
  then show ?thesis using assms(2) by (simp add: encode_obs_def Let_def)
qed

lemma step_returns:
  assumes "length action = 2 * MAX_AC" "env_last_states env = Some prev" "env_horizon env \<noteq> 0"
      and "list_all intent_ok
             (take MAX_AC (snd (sim_step (env_sim env)
                (build_cmds 0 (length prev) action (take MAX_AC prev)))))"
  shows "\<exists>res env'. step sim_step env action = Inr (res, env')"
proof -
  obtain sim' states where s: "sim_step (env_sim env)
      (build_cmds 0 (length prev) action (take MAX_AC prev)) = (sim', states)"
    by (cases "sim_step (env_sim env) (build_cmds 0 (length prev) action (take MAX_AC prev))")
  with assms(4) have "list_all intent_ok (take MAX_AC states)" by simp
  from encode_obs_returns [OF this assms(3)] obtain ob al
    where "encode_obs (env_step_count env + 1) (env_horizon env) states = Inr (ob, al)"
    by blast
  with s assms(1,2) show ?thesis
    by (simp add: step_def Let_def split: prod.splits)
qed

text \<open>
  Claim C3. The catastrophe component is -10 exactly when the loss-of-separation count is
  at least 2 and is 0 below 2 (so 0 at a count of 1), in \<open>compute_reward\<close> and in what
  \<open>step\<close> reports; and whenever \<open>step\<close> returns with a negative catastrophe component,
  it returns \<open>terminated = True\<close>.
\<close>

theorem catastrophe_threshold_and_termination:
  "(catastrophe (snd (compute_reward prev_states cur_states msn los_count am)) = - 10
      \<longleftrightarrow> 2 \<le> los_count)
   \<and> (los_count < 2
        \<longrightarrow> catastrophe (snd (compute_reward prev_states cur_states msn los_count am)) = 0)
   \<and> (step sim_step env action = Inr (res, env')
        \<longrightarrow> (catastrophe (r_components (info res)) = - 10 \<longleftrightarrow> 2 \<le> info_los (info res))
            \<and> (info_los (info res) < 2 \<longrightarrow> catastrophe (r_components (info res)) = 0)
            \<and> (catastrophe (r_components (info res)) < 0 \<longrightarrow> terminated res))"
proof -
  have c: "catastrophe (snd (compute_reward p c m l k)) = (if 2 \<le> l then - 10 else 0)"
    for p c m l k
    by (simp add: compute_reward_def Let_def catastrophe_reward_comps)
  have "(catastrophe (r_components (info res)) = - 10 \<longleftrightarrow> 2 \<le> info_los (info res))
        \<and> (info_los (info res) < 2 \<longrightarrow> catastrophe (r_components (info res)) = 0)
        \<and> (catastrophe (r_components (info res)) < 0 \<longrightarrow> terminated res)"
    if "step sim_step env action = Inr (res, env')"
    using step_Inr_D [OF that] by (auto simp: c split: if_splits)
  then show ?thesis by (simp add: c)
qed

lemma three_los: "snd (pairwise_min_separation_nm [ac_low, ac_near, ac_low\<lparr>ac_id := ''TWIN''\<rparr>]) = 3"
  by (simp add: pairwise_min_separation_nm_def pair_body_def Let_def get_alive_def
      ac_low_def ac_near_def hypot_less_iff power2_eq_square split: prod.splits)

theorem catastrophe_threshold_and_termination_witness:
  "catastrophe (snd (compute_reward [] [] 10 1 [])) = 0
   \<and> (\<exists>res env'. step sim_three env_ready (replicate 32 0) = Inr (res, env')
         \<and> info_los (info res) = 3 \<and> catastrophe (r_components (info res)) = - 10
         \<and> terminated res)"
proof -
  have "\<exists>res env'. step sim_three env_ready (replicate 32 0) = Inr (res, env')"
    by (rule step_returns [where prev = "[ac_low, ac_near]"])
       (simp_all add: MAX_AC_def env_ready_def sim_three_def intent_ok_def ac_low_def ac_near_def)
  then obtain res env' where r: "step sim_three env_ready (replicate 32 0) = Inr (res, env')"
    by blast
  from step_Inr_D [OF r] have l: "info_los (info res) = 3"
    by (auto simp: sim_three_def three_los)
  note t = catastrophe_threshold_and_termination
    [of "[]" "[]" 10 1 "[]" sim_three env_ready "replicate 32 0" res env']
  from t have a: "catastrophe (snd (compute_reward [] [] 10 1 [])) = 0"
    by simp
  from t r l have "catastrophe (r_components (info res)) = - 10 \<and> terminated res"
    by simp
  with a r l show ?thesis by blast
qed

section \<open>Properties of the event bus\<close>





lemma publish_dropped:
  assumes "rate_limit bus \<le> rate_counter bus" "now - rate_window_start bus < 1"
  shows "publish now ev (bus, w) = ((bus, w), [])"
  using assms by (simp add: publish_def check_rate_limit_def Let_def)

lemma publish_all_dropped:
  assumes "rate_limit bus \<le> rate_counter bus" "in_window bus calls"
  shows "publish_all calls (bus, w) = ((bus, w), [])"
  using assms
proof (induction calls)
  case Nil
  then show ?case by simp
next
  case (Cons c calls)
  obtain now ev where c: "c = (now, ev)" by (cases c)
  from Cons.prems have "now - rate_window_start bus < 1" "in_window bus calls"
    by (simp_all add: in_window_def c)
  with Cons show ?case by (simp add: c publish_dropped)
qed


lemma publish_bus_counter:
  assumes "running bus" "rate_counter bus < rate_limit bus" "now - rate_window_start bus < 1"
  shows "rate_counter (fst (fst (publish now ev (bus, w)))) = rate_counter bus + 1
         \<and> rate_limit (fst (fst (publish now ev (bus, w)))) = rate_limit bus
         \<and> rate_window_start (fst (fst (publish now ev (bus, w)))) = rate_window_start bus
         \<and> running (fst (fst (publish now ev (bus, w))))"
  using assms
  by (simp add: publish_def check_rate_limit_def Let_def split: prod.splits)

lemma publish_all_counter:
  assumes "running bus" "in_window bus calls"
      and "rate_counter bus + int (length calls) \<le> rate_limit bus"
  shows "rate_counter (fst (fst (publish_all calls (bus, w)))) = rate_counter bus + int (length calls)
         \<and> rate_limit (fst (fst (publish_all calls (bus, w)))) = rate_limit bus
         \<and> rate_window_start (fst (fst (publish_all calls (bus, w)))) = rate_window_start bus
         \<and> running (fst (fst (publish_all calls (bus, w))))"
  using assms
proof (induction calls arbitrary: bus w)
  case Nil
  then show ?case by simp
next
  case (Cons c calls)
  obtain now ev where c: "c = (now, ev)" by (cases c)
  obtain bus1 w1 calls1 where p: "publish now ev (bus, w) = ((bus1, w1), calls1)"
    by (cases "publish now ev (bus, w)") auto
  from Cons.prems have pre: "now - rate_window_start bus < 1" "rate_counter bus < rate_limit bus"
    by (simp_all add: in_window_def c)
  from publish_bus_counter [OF Cons.prems(1) pre(2) pre(1), of ev w] p
  have b1: "rate_counter bus1 = rate_counter bus + 1" "rate_limit bus1 = rate_limit bus"
    "rate_window_start bus1 = rate_window_start bus" "running bus1"
    by simp_all
  from Cons.prems b1 have "in_window bus1 calls"
    "rate_counter bus1 + int (length calls) \<le> rate_limit bus1"
    by (simp_all add: in_window_def)
  obtain st2 calls2 where q: "publish_all calls (bus1, w1) = (st2, calls2)"
    by (cases "publish_all calls (bus1, w1)")
  from Cons.IH [OF b1(4) \<open>in_window bus1 calls\<close>
      \<open>rate_counter bus1 + int (length calls) \<le> rate_limit bus1\<close>, of w1] b1 p q
  show ?case by (simp add: c)
qed

lemma publish_all_append:
  "publish_all (cs1 @ cs2) st
     = (case publish_all cs1 st of
          (st1, calls1) \<Rightarrow> (case publish_all cs2 st1 of (st2, calls2) \<Rightarrow> (st2, calls1 @ calls2)))"
  by (induction cs1 arbitrary: st) (auto split: prod.splits)









lemma bus_rec_fields:
  "subscribers bus_rec = [(POLICY_DECISION, [(''bad'', always_raises), (''rec'', recorder)])]"
  "async_subscribers bus_rec = []" "filters bus_rec = []" "running bus_rec"
  "rate_counter bus_rec = 0" "rate_limit bus_rec = 1000" "rate_window_start bus_rec = 0"
  "event_history bus_rec = []" "max_history bus_rec = 1000"
  by (simp_all add: bus_rec_def subscribe_def EventBus_init_def table_add_def dict_get_def
      dict_set_def)



text \<open>
  Claim C5. When the counter of the current one-second window has reached the rate limit,
  \<open>publish\<close> returns leaving the bus (its history included) and the outside state as they
  were and calling no subscriber. The counter reaches the limit \<open>R\<close> with the \<open>R\<close>-th call
  that passes the rate check in the window, so after \<open>R\<close> such calls every further call in
  the window is dropped.
\<close>

theorem rate_limit_drops:
  "(rate_limit bus \<le> rate_counter bus \<and> now - rate_window_start bus < 1
      \<longrightarrow> publish now ev (bus, w) = ((bus, w), []))
   \<and> (running bus \<and> rate_counter bus = 0 \<and> int (length cs1) = rate_limit bus
        \<and> in_window bus (cs1 @ cs2)
      \<longrightarrow> rate_counter (fst (fst (publish_all cs1 (bus, w)))) = rate_limit bus
          \<and> (\<forall>c \<in> set cs2. publish (fst c) (snd c) (fst (publish_all cs1 (bus, w)))
                = (fst (publish_all cs1 (bus, w)), []))
          \<and> publish_all (cs1 @ cs2) (bus, w) = publish_all cs1 (bus, w))"
proof -
  have "rate_counter (fst (fst (publish_all cs1 (bus, w)))) = rate_limit bus
        \<and> (\<forall>c \<in> set cs2. publish (fst c) (snd c) (fst (publish_all cs1 (bus, w)))
              = (fst (publish_all cs1 (bus, w)), []))
        \<and> publish_all (cs1 @ cs2) (bus, w) = publish_all cs1 (bus, w)"
    if run: "running bus" and zero: "rate_counter bus = 0"
      and len: "int (length cs1) = rate_limit bus" and win: "in_window bus (cs1 @ cs2)"
  proof -
    obtain bus1 w1 calls1 where p: "publish_all cs1 (bus, w) = ((bus1, w1), calls1)"
      by (cases "publish_all cs1 (bus, w)") auto
    from win have win1: "in_window bus cs1" and win2: "in_window bus cs2"
      by (simp_all add: in_window_def)
    from publish_all_counter [OF run win1, of w] zero len p
    have b1: "rate_counter bus1 = rate_limit bus" "rate_limit bus1 = rate_limit bus"
      "rate_window_start bus1 = rate_window_start bus"
      by simp_all
    then have full: "rate_limit bus1 \<le> rate_counter bus1" by simp
    from win2 b1 have win2': "in_window bus1 cs2" by (simp add: in_window_def)
    have one: "\<forall>c \<in> set cs2. publish (fst c) (snd c) (bus1, w1) = ((bus1, w1), [])"
      using win2' full by (simp add: in_window_def publish_dropped)
    have all: "publish_all cs2 (bus1, w1) = ((bus1, w1), [])"
      by (rule publish_all_dropped [OF full win2'])
    from p b1 one all show ?thesis by (simp add: publish_all_append)
  qed
  then show ?thesis using publish_dropped [of bus now ev w] by blast
qed

lemma bus_two_run:
  "publish_all [(0.1, ev1), (0.2, ev2)] (bus_two, ([], ()))
     = ((bus_two\<lparr>rate_counter := 2, event_history := [ev1, ev2]\<rparr>, ([ev1, ev2], ())),
        [(''bad'', ev1), (''rec'', ev1), (''bad'', ev2), (''rec'', ev2)])"
  by (simp add: bus_two_def publish_def check_rate_limit_def apply_filters_def bus_rec_fields
      notify_subscribers_def subscribers_for_def dict_get_def deque_append_def Let_def
      safe_callback_def always_raises_def recorder_def ev1_def ev2_def)

theorem rate_limit_drops_witness:
  "publish 0.3 ev3 (bus_two\<lparr>rate_counter := 2, event_history := [ev1, ev2]\<rparr>, ([ev1, ev2], ()))
     = ((bus_two\<lparr>rate_counter := 2, event_history := [ev1, ev2]\<rparr>, ([ev1, ev2], ())), [])"
proof -
  have "running bus_two \<and> rate_counter bus_two = 0
      \<and> int (length [(0.1 :: real, ev1), (0.2, ev2)]) = rate_limit bus_two
      \<and> in_window bus_two ([(0.1, ev1), (0.2, ev2)] @ [(0.3, ev3)])"
    by (simp add: bus_two_def bus_rec_fields in_window_def)
  with rate_limit_drops [of bus_two _ _ "([], ())" "[(0.1, ev1), (0.2, ev2)]" "[(0.3, ev3)]"]
  have "\<forall>c \<in> set [(0.3 :: real, ev3)].
      publish (fst c) (snd c) (fst (publish_all [(0.1, ev1), (0.2, ev2)] (bus_two, ([], ()))))
        = (fst (publish_all [(0.1, ev1), (0.2, ev2)] (bus_two, ([], ()))), [])"
    by blast
  then show ?thesis unfolding bus_two_run by simp
qed

section \<open>Properties of the decision tracker\<close>

subsection \<open>Decision ids are distinct\<close>

declare str_nat.simps [simp del]

lemma digit_char_inj: "d < 10 \<Longrightarrow> e < 10 \<Longrightarrow> digit_char d = digit_char e \<longleftrightarrow> d = e"
  unfolding digit_char_def by (rule nth_eq_iff_index_eq) simp_all

lemma digit_char_mem: "d < 10 \<Longrightarrow> digit_char d \<in> set ''0123456789''"
  unfolding digit_char_def by (rule nth_mem) simp

lemma str_nat_nonempty: "str_nat n \<noteq> []"
  by (subst str_nat.simps) simp

lemma str_nat_digits: "set (str_nat n) \<subseteq> set ''0123456789''"
proof (induction n rule: str_nat.induct)
  case (1 n)
  show ?case
  proof (cases "n < 10")
    case True
    then show ?thesis using digit_char_mem [of n] by (subst str_nat.simps) simp
  next
    case False
    have "n mod 10 < 10" by simp
    from digit_char_mem [OF this] "1" [OF False] False show ?thesis
      by (subst str_nat.simps) simp
  qed
qed

lemma str_nat_inj: "str_nat m = str_nat n \<Longrightarrow> m = n"
proof (induction m arbitrary: n rule: str_nat.induct)
  case (1 m)
  show ?case
  proof (cases "m < 10")
    case mt: True
    show ?thesis
    proof (cases "n < 10")
      case True
      with mt "1.prems" show ?thesis
        by (simp add: str_nat.simps [of m] str_nat.simps [of n] digit_char_inj)
    next
      case False
      with mt "1.prems" show ?thesis
        using str_nat_nonempty [of "n div 10"]
        by (simp add: str_nat.simps [of m] str_nat.simps [of n] Cons_eq_append_conv)
    qed
  next
    case mf: False
    show ?thesis
    proof (cases "n < 10")
      case True
      with mf "1.prems" show ?thesis
        using str_nat_nonempty [of "m div 10"]
        by (simp add: str_nat.simps [of m] str_nat.simps [of n] append_eq_Cons_conv)
    next
      case False
      with mf "1.prems" have e: "str_nat (m div 10) = str_nat (n div 10)"
        "digit_char (m mod 10) = digit_char (n mod 10)"
        by (simp_all add: str_nat.simps [of m] str_nat.simps [of n])
      from "1.IH" [OF mf e(1)] have "m div 10 = n div 10" .
      moreover from e(2) have "m mod 10 = n mod 10" by (simp add: digit_char_inj)
      ultimately show ?thesis by (metis div_mult_mod_eq)
    qed
  qed
qed

lemma str_int_inj: "str_int i = str_int j \<Longrightarrow> i = j"
proof -
  assume a: "str_int i = str_int j"
  have no_minus: "hd (str_nat n) \<noteq> CHR ''-''" for n
  proof -
    have "hd (str_nat n) \<in> set (str_nat n)" using str_nat_nonempty by simp
    with str_nat_digits [of n] show ?thesis by auto
  qed
  show ?thesis
  proof (cases "i < 0")
    case it: True
    show ?thesis
    proof (cases "j < 0")
      case True
      with it a have "nat (- i) = nat (- j)" by (simp add: str_int_def str_nat_inj)
      with it True show ?thesis by simp
    next
      case False
      with it a no_minus [of "nat j"] show ?thesis
        by (auto simp: str_int_def) (metis list.sel(1))
    qed
  next
    case ifl: False
    show ?thesis
    proof (cases "j < 0")
      case True
      with ifl a no_minus [of "nat i"] show ?thesis
        by (auto simp: str_int_def)
    next
      case False
      with ifl a have "nat i = nat j" by (simp add: str_int_def str_nat_inj)
      with ifl False show ?thesis by simp
    qed
  qed
qed

lemma str_int_no_underscore: "CHR ''_'' \<notin> set (str_int i)"
  using str_nat_digits [of "nat i"] str_nat_digits [of "nat (- i)"]
  by (auto simp: str_int_def)

lemma split_at_sep:
  assumes "xs @ c # ys = xs' @ c # ys'" "c \<notin> set xs" "c \<notin> set xs'"
  shows "xs = xs'"
proof -
  have "takeWhile (\<lambda>x. x \<noteq> c) (xs @ c # ys) = xs"
    using assms(2) by (subst takeWhile_append2) auto
  moreover have "takeWhile (\<lambda>x. x \<noteq> c) (xs' @ c # ys') = xs'"
    using assms(3) by (subst takeWhile_append2) auto
  ultimately show ?thesis using assms(1) by simp
qed

lemma make_decision_id_inj:
  assumes "make_decision_id m s = make_decision_id n t"
  shows "m = n"
proof -
  from assms have "str_int m @ CHR ''_'' # str_int (py_int (s * 1000))
      = str_int n @ CHR ''_'' # str_int (py_int (t * 1000))"
    by (simp add: make_decision_id_def)
  from split_at_sep [OF this str_int_no_underscore str_int_no_underscore]
  show ?thesis by (rule str_int_inj)
qed

subsection \<open>The buffer after a run of calls\<close>

lemma length_new_ids: "length (new_ids n cs) = length cs"
  by (induction cs arbitrary: n) simp_all

lemma new_ids_later: "x \<in> set (new_ids n cs) \<Longrightarrow> \<exists>k t. x = make_decision_id k t \<and> n < k"
proof (induction cs arbitrary: n)
  case Nil
  then show ?case by simp
next
  case (Cons c cs)
  then show ?case
  proof (cases "x = make_decision_id (n + 1) (lc_t_id c)")
    case True
    then show ?thesis by (intro exI [of _ "n + 1"] exI [of _ "lc_t_id c"]) simp
  next
    case False
    with Cons.prems have "x \<in> set (new_ids (n + 1) cs)" by simp
    from Cons.IH [OF this] obtain k t where "x = make_decision_id k t" "n + 1 < k" by blast
    then show ?thesis by (intro exI [of _ k] exI [of _ t]) simp
  qed
qed

lemma distinct_new_ids: "distinct (new_ids n cs)"
proof (induction cs arbitrary: n)
  case Nil
  then show ?case by simp
next
  case (Cons c cs)
  have "make_decision_id (n + 1) (lc_t_id c) \<notin> set (new_ids (n + 1) cs)"
  proof
    assume "make_decision_id (n + 1) (lc_t_id c) \<in> set (new_ids (n + 1) cs)"
    from new_ids_later [OF this] obtain k t
      where "make_decision_id (n + 1) (lc_t_id c) = make_decision_id k t" "n + 1 < k" by blast
    with make_decision_id_inj show False by blast
  qed
  with Cons.IH show ?case by simp
qed

lemma deque_append_keep_last: "deque_append m (keep_last m xs) x = keep_last m (xs @ [x])"
proof (cases "m = 0")
  case True
  then show ?thesis by (simp add: deque_append_def keep_last_def)
next
  case m: False
  show ?thesis
  proof (cases "length xs < m")
    case True
    then show ?thesis using m by (simp add: deque_append_def keep_last_def Let_def)
  next
    case False
    then have ne: "drop (length xs - m) xs \<noteq> []" using m by simp
    have "tl (drop (length xs - m) xs @ [x]) = drop (Suc (length xs - m)) xs @ [x]"
      using ne by (simp add: drop_Suc tl_drop)
    moreover have "Suc (length xs) - m = Suc (length xs - m)" using False by simp
    ultimately show ?thesis
      using m False by (simp add: deque_append_def keep_last_def Let_def)
  qed
qed

lemma log_decision_returns:
  assumes "call_returns c"
  shows "\<exists>r. log_decision (lc_t_id c) (lc_t_stamp c) (lc_observation c) (lc_action c)
             (lc_policy_output c) (lc_context c) tr
           = (Inr (make_decision_id (decision_count tr + 1) (lc_t_id c)),
              tr\<lparr>decision_count := decision_count tr + 1,
                 decisions := deque_append (max_decisions tr) (decisions tr) r\<rparr>)
         \<and> dr_decision_id r = make_decision_id (decision_count tr + 1) (lc_t_id c)
         \<and> dr_observation r = lc_observation c \<and> dr_action r = lc_action c
         \<and> dr_timestamp r = lc_t_stamp c"
proof -
  let ?id = "make_decision_id (decision_count tr + 1) (lc_t_id c)"
  let ?r = "\<lambda>v. new_record ?id (lc_t_stamp c) (lc_observation c) (lc_action c)
                    (lc_policy_output c) (lc_context c) v"
  have f: "dr_decision_id (?r v) = ?id \<and> dr_observation (?r v) = lc_observation c
      \<and> dr_action (?r v) = lc_action c \<and> dr_timestamp (?r v) = lc_t_stamp c" for v
    by (simp add: new_record_def Let_def)
  show ?thesis
  proof (cases "vf_preds (lc_policy_output c)")
    case None
    then have "log_decision (lc_t_id c) (lc_t_stamp c) (lc_observation c) (lc_action c)
             (lc_policy_output c) (lc_context c) tr
           = (Inr ?id, tr\<lparr>decision_count := decision_count tr + 1,
                 decisions := deque_append (max_decisions tr) (decisions tr) (?r 0)\<rparr>)"
      by (simp add: log_decision_def Let_def)
    with f [of 0] show ?thesis by blast
  next
    case (Some v)
    with assms obtain a vs where v: "v = a # vs" by (cases v) (simp_all add: call_returns_def)
    with Some have "log_decision (lc_t_id c) (lc_t_stamp c) (lc_observation c) (lc_action c)
             (lc_policy_output c) (lc_context c) tr
           = (Inr ?id, tr\<lparr>decision_count := decision_count tr + 1,
                 decisions := deque_append (max_decisions tr) (decisions tr) (?r a)\<rparr>)"
      by (simp add: log_decision_def Let_def)
    with f [of a] show ?thesis by blast
  qed
qed

lemma log_all_invariant:
  assumes "\<forall>c \<in> set calls. call_returns c"
      and "decisions tr = keep_last (max_decisions tr) old"
  shows "\<exists>new. log_all calls tr
           = (map Inr (new_ids (decision_count tr) calls),
              tr\<lparr>decision_count := decision_count tr + int (length calls),
                 decisions := keep_last (max_decisions tr) (old @ new)\<rparr>)
         \<and> map dr_decision_id new = new_ids (decision_count tr) calls
         \<and> map dr_observation new = map lc_observation calls
         \<and> map dr_action new = map lc_action calls
         \<and> map dr_timestamp new = map lc_t_stamp calls"
  using assms
proof (induction calls arbitrary: tr old)
  case Nil
  then show ?case by simp
next
  case (Cons c calls)
  from Cons.prems(1) have c: "call_returns c" and rest: "\<forall>c \<in> set calls. call_returns c"
    by simp_all
  from log_decision_returns [OF c, of tr] obtain r where
    r: "log_decision (lc_t_id c) (lc_t_stamp c) (lc_observation c) (lc_action c)
             (lc_policy_output c) (lc_context c) tr
           = (Inr (make_decision_id (decision_count tr + 1) (lc_t_id c)),
              tr\<lparr>decision_count := decision_count tr + 1,
                 decisions := deque_append (max_decisions tr) (decisions tr) r\<rparr>)"
    and rf: "dr_decision_id r = make_decision_id (decision_count tr + 1) (lc_t_id c)"
      "dr_observation r = lc_observation c" "dr_action r = lc_action c"
      "dr_timestamp r = lc_t_stamp c"
    by blast
  let ?tr1 = "tr\<lparr>decision_count := decision_count tr + 1,
                 decisions := deque_append (max_decisions tr) (decisions tr) r\<rparr>"
  have d1: "decisions ?tr1 = keep_last (max_decisions ?tr1) (old @ [r])"
    using Cons.prems(2) by (simp add: deque_append_keep_last)
  from Cons.IH [OF rest d1] obtain new where
    n: "log_all calls ?tr1
           = (map Inr (new_ids (decision_count ?tr1) calls),
              ?tr1\<lparr>decision_count := decision_count ?tr1 + int (length calls),
                 decisions := keep_last (max_decisions ?tr1) ((old @ [r]) @ new)\<rparr>)"
    and nf: "map dr_decision_id new = new_ids (decision_count ?tr1) calls"
      "map dr_observation new = map lc_observation calls"
      "map dr_action new = map lc_action calls"
      "map dr_timestamp new = map lc_t_stamp calls"
    by blast
  show ?case
    using r n rf nf by (intro exI [of _ "r # new"]) (simp add: add.assoc)
qed

lemma nth_notin_drop:
  assumes "distinct xs" "i < k" "i < length xs"
  shows "xs ! i \<notin> set (drop k xs)"
proof
  assume "xs ! i \<in> set (drop k xs)"
  then obtain j where j: "j < length (drop k xs)" "drop k xs ! j = xs ! i"
    by (auto simp: in_set_conv_nth)
  then have "xs ! (k + j) = xs ! i" "k + j < length xs" by simp_all
  with assms(1,3) have "k + j = i" by (simp add: nth_eq_iff_index_eq)
  with assms(2) show False by simp
qed

lemma find_distinct_key:
  assumes "distinct (map f xs)" "j < length xs"
  shows "find (\<lambda>d. f d = f (xs ! j)) xs = Some (xs ! j)"
proof -
  have "\<not> f (xs ! k) = f (xs ! j)" if "k < j" for k
  proof
    assume "f (xs ! k) = f (xs ! j)"
    with that assms(2) have "map f xs ! k = map f xs ! j" by simp
    moreover have "k < length (map f xs)" "j < length (map f xs)" using that assms(2) by simp_all
    ultimately have "k = j" using nth_eq_iff_index_eq [OF assms(1)] by blast
    with that show False by simp
  qed
  with assms(2) show ?thesis
    unfolding find_Some_iff by (intro exI [of _ j]) simp
qed

lemma find_absent_key:
  assumes "x \<notin> set (map f xs)"
  shows "find (\<lambda>d. f d = x) xs = None"
  using assms by (auto simp: find_None_iff)

lemma tracker_run:
  assumes init: "DecisionTracker_init C = Inr tr0"
      and len: "length calls = nat C + K"
      and ret: "\<forall>c \<in> set calls. call_returns c"
  shows "\<exists>tr. log_all calls tr0 = (map Inr (new_ids 0 calls), tr)
       \<and> length (decisions tr) = nat C
       \<and> map dr_decision_id (decisions tr) = drop K (new_ids 0 calls)
       \<and> map dr_observation (decisions tr) = map lc_observation (drop K calls)
       \<and> map dr_action (decisions tr) = map lc_action (drop K calls)
       \<and> map dr_timestamp (decisions tr) = map lc_t_stamp (drop K calls)
       \<and> decision_count tr = C + int K"
proof -
  from init have C: "0 \<le> C" and tr0: "tr0 = \<lparr>max_decisions = nat C, decisions = [], decision_count = 0\<rparr>"
    by (auto simp: DecisionTracker_init_def split: if_splits)
  have "decisions tr0 = keep_last (max_decisions tr0) []"
    by (simp add: tr0 keep_last_def)
  from log_all_invariant [OF ret this] obtain new where
    run: "log_all calls tr0 = (map Inr (new_ids 0 calls),
            tr0\<lparr>decision_count := int (length calls), decisions := keep_last (nat C) new\<rparr>)"
    and ids: "map dr_decision_id new = new_ids 0 calls"
    and ob: "map dr_observation new = map lc_observation calls"
    and ac: "map dr_action new = map lc_action calls"
    and ts: "map dr_timestamp new = map lc_t_stamp calls"
    by (auto simp: tr0)
  from ids have ln: "length new = nat C + K"
    using len length_new_ids [of 0 calls] by (metis length_map)
  then have kl: "keep_last (nat C) new = drop K new" by (simp add: keep_last_def)
  let ?tr = "tr0\<lparr>decision_count := int (length calls), decisions := drop K new\<rparr>"
  have "log_all calls tr0 = (map Inr (new_ids 0 calls), ?tr)" using run kl by simp
  moreover have "length (decisions ?tr) = nat C" using ln by simp
  moreover have "map dr_decision_id (decisions ?tr) = drop K (new_ids 0 calls)"
    by (simp add: drop_map [symmetric] ids)
  moreover have "map dr_observation (decisions ?tr) = map lc_observation (drop K calls)"
    by (simp add: drop_map [symmetric] ob)
  moreover have "map dr_action (decisions ?tr) = map lc_action (drop K calls)"
    by (simp add: drop_map [symmetric] ac)
  moreover have "map dr_timestamp (decisions ?tr) = map lc_t_stamp (drop K calls)"
    by (simp add: drop_map [symmetric] ts)
  moreover have "decision_count ?tr = C + int K" using len C by simp
  ultimately show ?thesis by blast
qed

lemma tracker_examples:
  "fst (log_all [call_at 0.1, call_at 0.2, call_at 0.3] tr_two)
     = [Inr ''decision_1_100'', Inr ''decision_2_200'', Inr ''decision_3_300'']"
  "map dr_decision_id (decisions (snd (log_all [call_at 0.1, call_at 0.2, call_at 0.3] tr_two)))
     = [''decision_2_200'', ''decision_3_300'']"
  "decision_count (snd (log_all [call_at 0.1] tr_zero)) = 1"
  "decisions (snd (log_all [call_at 0.1] tr_zero)) = []"
  by (simp_all add: log_decision_def call_at_def tr_two_def tr_zero_def Let_def
      deque_append_def new_record_def make_decision_id_def str_int_def str_nat.simps
      py_int_def digit_char_def)

text \<open>
  Claim C6, as the code has it. A tracker constructed with capacity \<open>C\<close> that has served
  \<open>C + K\<close> calls of \<open>log_decision\<close>, each of which returned an id, holds exactly \<open>C\<close>
  records: those of the last \<open>C\<close> calls, in the order of the calls. The ids handed out are
  pairwise distinct, \<open>get_decision_by_id\<close> returns \<open>None\<close> for the ids of the first \<open>K\<close>
  calls and the stored record for the others, and the counter is \<open>C + K\<close>. \<open>get_statistics\<close>
  reports that total when \<open>C\<close> is positive; with capacity 0 the buffer is empty and it reports
  the zeros of its empty-buffer branch.
\<close>

theorem tracker_fifo_eviction:
  "DecisionTracker_init C = Inr tr0 \<and> length calls = nat C + K
     \<and> (\<forall>c \<in> set calls. call_returns c)
   \<longrightarrow> (case log_all calls tr0 of (results, tr) \<Rightarrow>
          results = map Inr (new_ids 0 calls)
        \<and> distinct (new_ids 0 calls)
        \<and> length (decisions tr) = nat C
        \<and> map dr_decision_id (decisions tr) = drop K (new_ids 0 calls)
        \<and> map dr_observation (decisions tr) = map lc_observation (drop K calls)
        \<and> map dr_action (decisions tr) = map lc_action (drop K calls)
        \<and> map dr_timestamp (decisions tr) = map lc_t_stamp (drop K calls)
        \<and> (\<forall>i < K. get_decision_by_id (new_ids 0 calls ! i) tr = None)
        \<and> (\<forall>i. K \<le> i \<and> i < nat C + K
              \<longrightarrow> get_decision_by_id (new_ids 0 calls ! i) tr = Some (decisions tr ! (i - K)))
        \<and> decision_count tr = C + int K
        \<and> buffer_size (get_statistics tr) = C
        \<and> (0 < C \<longrightarrow> total_decisions (get_statistics tr) = C + int K))"
proof (intro impI, elim conjE)
  assume init: "DecisionTracker_init C = Inr tr0"
    and len: "length calls = nat C + K"
    and ret: "\<forall>c \<in> set calls. call_returns c"
  from init have C: "0 \<le> C" by (auto simp: DecisionTracker_init_def split: if_splits)
  from tracker_run [OF init len ret] obtain tr where
    run: "log_all calls tr0 = (map Inr (new_ids 0 calls), tr)"
    and n: "length (decisions tr) = nat C"
    and ids: "map dr_decision_id (decisions tr) = drop K (new_ids 0 calls)"
    and ob: "map dr_observation (decisions tr) = map lc_observation (drop K calls)"
    and ac: "map dr_action (decisions tr) = map lc_action (drop K calls)"
    and ts: "map dr_timestamp (decisions tr) = map lc_t_stamp (drop K calls)"
    and cnt: "decision_count tr = C + int K"
    by blast
  have d: "distinct (new_ids 0 calls)" by (rule distinct_new_ids)
  have lid: "length (new_ids 0 calls) = nat C + K" by (simp add: length_new_ids len)
  have gone: "get_decision_by_id (new_ids 0 calls ! i) tr = None" if "i < K" for i
  proof -
    have il: "i < length (new_ids 0 calls)" using that lid by simp
    have "new_ids 0 calls ! i \<notin> set (drop K (new_ids 0 calls))"
      by (rule nth_notin_drop [OF d that il])
    then have "new_ids 0 calls ! i \<notin> set (map dr_decision_id (decisions tr))"
      unfolding ids .
    then show ?thesis unfolding get_decision_by_id_def by (rule find_absent_key)
  qed
  have kept: "get_decision_by_id (new_ids 0 calls ! i) tr = Some (decisions tr ! (i - K))"
    if "K \<le> i" "i < nat C + K" for i
  proof -
    from that n have j: "i - K < length (decisions tr)" by simp
    have dd: "distinct (map dr_decision_id (decisions tr))"
      unfolding ids using d by (rule distinct_drop)
    have "dr_decision_id (decisions tr ! (i - K)) = map dr_decision_id (decisions tr) ! (i - K)"
      using j by simp
    also have "\<dots> = new_ids 0 calls ! i"
      unfolding ids using that lid by simp
    finally have e: "new_ids 0 calls ! i = dr_decision_id (decisions tr ! (i - K))" by simp
    show ?thesis
      unfolding get_decision_by_id_def e by (rule find_distinct_key [OF dd j])
  qed
  have bs: "buffer_size (get_statistics tr) = C"
    using n C by (cases "decisions tr = []") (simp_all add: get_statistics_def Let_def)
  have tot: "total_decisions (get_statistics tr) = C + int K" if "0 < C"
  proof -
    from that n have "decisions tr \<noteq> []" by auto
    then show ?thesis by (simp add: get_statistics_def Let_def cnt)
  qed
  from run n ids ob ac ts cnt d gone kept bs tot
  show "case log_all calls tr0 of (results, tr) \<Rightarrow>
          results = map Inr (new_ids 0 calls)
        \<and> distinct (new_ids 0 calls)
        \<and> length (decisions tr) = nat C
        \<and> map dr_decision_id (decisions tr) = drop K (new_ids 0 calls)
        \<and> map dr_observation (decisions tr) = map lc_observation (drop K calls)
        \<and> map dr_action (decisions tr) = map lc_action (drop K calls)
        \<and> map dr_timestamp (decisions tr) = map lc_t_stamp (drop K calls)
        \<and> (\<forall>i < K. get_decision_by_id (new_ids 0 calls ! i) tr = None)
        \<and> (\<forall>i. K \<le> i \<and> i < nat C + K
              \<longrightarrow> get_decision_by_id (new_ids 0 calls ! i) tr = Some (decisions tr ! (i - K)))
        \<and> decision_count tr = C + int K
        \<and> buffer_size (get_statistics tr) = C
        \<and> (0 < C \<longrightarrow> total_decisions (get_statistics tr) = C + int K)"
    by simp
qed

theorem tracker_fifo_eviction_witness:
  "length (decisions (snd (log_all [call_at 0.1, call_at 0.2, call_at 0.3] tr_two))) = 2
   \<and> get_decision_by_id ''decision_1_100''
        (snd (log_all [call_at 0.1, call_at 0.2, call_at 0.3] tr_two)) = None
   \<and> decision_count (snd (log_all [call_at 0.1, call_at 0.2, call_at 0.3] tr_two)) = 3
   \<and> total_decisions (get_statistics (snd (log_all [call_at 0.1, call_at 0.2, call_at 0.3] tr_two)))
        = 3"
proof -
  let ?calls = "[call_at 0.1, call_at 0.2, call_at 0.3]"
  obtain results tr where run: "log_all ?calls tr_two = (results, tr)"
    by (cases "log_all ?calls tr_two")
  have pre: "DecisionTracker_init 2 = Inr tr_two \<and> length ?calls = nat 2 + 1
      \<and> (\<forall>c \<in> set ?calls. call_returns c)"
    by (simp add: DecisionTracker_init_def tr_two_def call_returns_def call_at_def)
  have first: "new_ids 0 ?calls ! 0 = ''decision_1_100''"
    by (simp add: call_at_def make_decision_id_def str_int_def str_nat.simps py_int_def
        digit_char_def)
  from tracker_fifo_eviction [of 2 tr_two ?calls 1] pre run
  have "length (decisions tr) = nat 2"
    and "\<forall>i < 1. get_decision_by_id (new_ids 0 ?calls ! i) tr = None"
    and "decision_count tr = 2 + int 1"
    and "total_decisions (get_statistics tr) = 2 + int 1"
    by simp_all
  with first run show ?thesis by simp
qed

text \<open>
  The claim as stated fails at capacity 0: after one call the counter is 1, and
  \<open>get_statistics\<close> reports a total of 0.
\<close>

theorem tracker_total_counterexample:
  "DecisionTracker_init 0 = Inr tr_zero \<and> call_returns (call_at 0.1)
   \<and> length (decisions (snd (log_all [call_at 0.1] tr_zero))) = 0
   \<and> decision_count (snd (log_all [call_at 0.1] tr_zero)) = 0 + 1
   \<and> total_decisions (get_statistics (snd (log_all [call_at 0.1] tr_zero))) \<noteq> 0 + 1"
proof -
  have a: "DecisionTracker_init 0 = Inr tr_zero"
    by (simp add: DecisionTracker_init_def tr_zero_def)
  have b: "call_returns (call_at 0.1)"
    by (simp add: call_returns_def call_at_def)
  define tr where "tr = snd (log_all [call_at 0.1] tr_zero)"
  have c: "decision_count tr = 1" and d: "decisions tr = []"
    unfolding tr_def by (rule tracker_examples)+
  have "length (decisions tr) = 0 \<and> decision_count tr = 0 + 1
      \<and> total_decisions (get_statistics tr) \<noteq> 0 + 1"
    by (simp add: c d get_statistics_def)
  with a b show ?thesis unfolding tr_def by blast
qed

section \<open>Properties of the safety analyzer\<close>

subsection \<open>The safety score\<close>

lemma penalty_with_severity:
  "foldl (\<lambda>p v. p + severity_penalty (severity v)) a (with_severity s vs)
     = a + real (length vs) * severity_penalty s"
  by (induction vs arbitrary: a) (simp_all add: with_severity_def algebra_simps)

lemma score_with_severity:
  "calculate_safety_score (with_severity s vs) d
     = (if d \<le> 0 then 100
        else max 0 (100 - real (length vs) * severity_penalty s / max d 1))"
  by (simp add: calculate_safety_score_def Let_def penalty_with_severity)

lemma max0_less: "x < y \<Longrightarrow> 0 < y \<Longrightarrow> max 0 x < max 0 (y :: real)"
  by (simp add: max_def)

lemma max0_eq: "x \<le> y \<Longrightarrow> y \<le> 0 \<Longrightarrow> max 0 x = max 0 (y :: real)"
  by (simp add: max_def)

lemma severity_penalty_values: "severity_penalty LOW = 2" "severity_penalty CRITICAL = 20"
  by (simp_all add: severity_penalty_def)

lemma floored_scores:
  fixes m n :: real
  assumes m: "0 < m" and n: "0 \<le> n"
  shows "max 0 (100 - n * 20 / m) \<le> max 0 (100 - n * 2 / m)
         \<and> (max 0 (100 - n * 20 / m) < max 0 (100 - n * 2 / m) \<longleftrightarrow> 0 < n \<and> 2 * n < 100 * m)"
proof -
  have le: "n * 2 / m \<le> n * 20 / m"
    using m n by (simp add: divide_le_cancel mult_left_mono)
  have pos: "0 < 100 - n * 2 / m \<longleftrightarrow> 2 * n < 100 * m"
    using m by (simp add: field_simps)
  show ?thesis
  proof (cases "0 < n \<and> 2 * n < 100 * m")
    case True
    from True pos have a: "0 < 100 - n * 2 / m" by blast
    from True m have "n * 2 / m < n * 20 / m" by (simp add: divide_strict_right_mono)
    then have b: "100 - n * 20 / m < 100 - n * 2 / m" by linarith
    have "max 0 (100 - n * 20 / m) < max 0 (100 - n * 2 / m)"
      by (rule max0_less [OF b a])
    with True show ?thesis by simp
  next
    case no: False
    have e: "max 0 (100 - n * 20 / m) = max 0 (100 - n * 2 / m)"
    proof (cases "0 < n")
      case True
      with no have "\<not> 2 * n < 100 * m" by blast
      with pos have a: "100 - n * 2 / m \<le> 0" by linarith
      from le have b: "100 - n * 20 / m \<le> 100 - n * 2 / m" by linarith
      show ?thesis by (rule max0_eq [OF b a])
    next
      case False
      with n have "n = 0" by simp
      then show ?thesis by simp
    qed
    from no show ?thesis unfolding e by simp
  qed
qed

text \<open>
  Claim C9, as the code has it. For a violation list and the same list with other
  severities, over the same window, the score of the all-low list is never below the score
  of the all-critical list; it is strictly higher exactly when the list is non-empty, the
  duration is positive and the all-low penalty \<open>2 n / max(duration, 1)\<close> stays below 100.
  Otherwise the two scores are equal: both 100 for an empty list or a non-positive
  duration, both 0 when the floor is reached.
\<close>

theorem safety_score_low_vs_critical:
  "calculate_safety_score (with_severity CRITICAL vs) d
     \<le> calculate_safety_score (with_severity LOW vs) d
   \<and> (calculate_safety_score (with_severity CRITICAL vs) d
        < calculate_safety_score (with_severity LOW vs) d
      \<longleftrightarrow> vs \<noteq> [] \<and> 0 < d \<and> 2 * real (length vs) < 100 * max d 1)"
proof (cases "d \<le> 0")
  case True
  then show ?thesis unfolding score_with_severity by simp
next
  case False
  have m: "0 < max d 1" by simp
  have n: "0 \<le> real (length vs)" by simp
  have ne: "vs \<noteq> [] \<longleftrightarrow> 0 < real (length vs)" by simp
  have d: "0 < d" using False by simp
  from floored_scores [OF m n] False show ?thesis
    unfolding score_with_severity severity_penalty_values ne
    by (simp only: if_False d simp_thms)
qed

theorem safety_score_low_vs_critical_witness:
  "calculate_safety_score (with_severity CRITICAL [viol0]) 2
     < calculate_safety_score (with_severity LOW [viol0]) 2"
proof -
  have "[viol0] \<noteq> [] \<and> (0 :: real) < 2 \<and> 2 * real (length [viol0]) < 100 * max 2 1"
    by simp
  with safety_score_low_vs_critical [of "[viol0]" 2] show ?thesis by blast
qed

text \<open>
  The claim as stated fails where the floor is reached: 50 violations in a window of one
  hour give the score 0 for both lists.
\<close>

theorem safety_score_counterexample:
  "\<not> calculate_safety_score (with_severity CRITICAL (replicate 50 viol0)) 1
       < calculate_safety_score (with_severity LOW (replicate 50 viol0)) 1"
  unfolding score_with_severity severity_penalty_values by simp

subsection \<open>Root causes\<close>














lemma handler_example:
  "map root_causes (get_violation_history None
       (handle_safety_violation_event viol_event tr_zero analyzer0))
     = [Some [''Insufficient decision history for analysis'']]"
  by (simp add: handle_safety_violation_event_def viol_event_def analyzer0_def tr_zero_def
      get_violation_history_def parse_violation_type_def parse_severity_def get_or_def
      analyze_violation_def get_relevant_decisions_def get_decision_history_def
      identify_root_causes_def deque_append_def Let_def)



section \<open>Pattern analyzer: what reaches the pattern history\<close>

text \<open>
  \<open>analyze_recent_performance\<close> stores what it returns: each returned pattern goes through
  \<open>self._patterns.append\<close> on the deque of bound 500, and is counted.
\<close>

lemma patterns_store_patterns:
  "patterns (store_patterns ps an) = foldl (deque_append 500) (patterns an) ps"
  by (induction ps arbitrary: an) simp_all

lemma pattern_count_store_patterns:
  "pattern_count (store_patterns ps an) = pattern_count an + int (length ps)"
  by (induction ps arbitrary: an) simp_all

lemma analyze_recent_performance_stores:
  assumes "analyze_recent_performance passes e an = (Inr ps, an')"
  shows "an' = store_patterns ps an"
  using assms
  by (auto simp: analyze_recent_performance_def Let_def split: if_splits sum.splits)

lemma analyze_recent_performance_appends:
  assumes "analyze_recent_performance passes e an = (Inr ps, an')"
  shows "patterns an' = foldl (deque_append 500) (patterns an) ps"
    and "pattern_count an' = pattern_count an + int (length ps)"
  using analyze_recent_performance_stores [OF assms]
  by (simp_all add: patterns_store_patterns pattern_count_store_patterns)

text \<open>
  \<open>detect_anomalies\<close> never touches \<open>self._patterns\<close>, whatever it returns.
\<close>

lemma detect_anomalies_patterns:
  "patterns (snd (detect_anomalies lib clock name k an)) = patterns an"
  by (simp add: detect_anomalies_def Let_def split: prod.splits)

text \<open>
  The run on \<open>analyzer_twenty\<close>: twenty recorded episodes, the first ten with mean 1 and
  standard deviation 1 as the baseline, and a last value of 10, at z-score 9.
\<close>

lemma twenty_values:
  "List.map_filter (metric_value ''mean_reward'') (performance_history analyzer_twenty)
     = [0, 2, 0, 2, 0, 2, 0, 2, 0, 2, 1, 1, 1, 1, 1, 1, 1, 1, 1, 10]"
  by (simp add: analyzer_twenty_def List.map_filter_def metric_value_def metrics_of_def)

lemma twenty_baseline:
  "np_mean [0, 2, 0, 2, 0, 2, 0, 2, 0, 2] = 1" "np_std [0, 2, 0, 2, 0, 2, 0, 2, 0, 2] = 1"
  by (simp_all add: np_mean_def np_std_def np_var_def)

lemma twenty_history_length: "length (performance_history analyzer_twenty) = 20"
  by (simp add: analyzer_twenty_def)

lemma twenty_loop:
  "anomaly_loop lib0 clock0 ''mean_reward'' 20 2.5 0
     (zip [1, 1, 1, 1, 1, 1, 1, 1, 1, 10] [0, 0, 0, 0, 0, 0, 0, 0, 0, 9]) 0
   = ([\<lparr>pattern_id = ''anomaly_0_5000'', bp_timestamp = 5, pattern_type = ANOMALY,
         bp_severity = CRITICAL_PATTERN, duration_seconds = 0, confidence_score = 1,
         statistical_significance = 0, effect_size = 9, affected_metrics = [''mean_reward''],
         episode_range = (19, 19), bp_decision_count = 1,
         description = ''Anomalous mean_reward value: x (z-score: x)'',
         recommendations =
           [''Investigate cause of anomalous mean_reward value'',
            ''Check for environmental changes or training instabilities'',
            ''Consider adjusting learning rate or other hyperparameters''],
         frequency = None, amplitude = None, trend_slope = None, related_patterns = None\<rparr>], 1)"
  by (simp add: lib0_def clock0_def classify_anomaly_severity_def str_int_def str_nat.simps
      py_int_def digit_char_def Let_def)

lemma twenty_run:
  "detect_anomalies lib0 clock0 ''mean_reward'' 50 analyzer_twenty
     = (fst (anomaly_loop lib0 clock0 ''mean_reward'' 20 2.5 0
          (zip [1, 1, 1, 1, 1, 1, 1, 1, 1, 10] [0, 0, 0, 0, 0, 0, 0, 0, 0, 9]) 0),
        analyzer_twenty\<lparr>pattern_count := snd (anomaly_loop lib0 clock0 ''mean_reward'' 20 2.5 0
          (zip [1, 1, 1, 1, 1, 1, 1, 1, 1, 10] [0, 0, 0, 0, 0, 0, 0, 0, 0, 9]) 0)\<rparr>)"
proof -
  have s: "slice_last 50 (performance_history analyzer_twenty)
             = performance_history analyzer_twenty"
    by (simp add: slice_last_def twenty_history_length)
  have th: "anomaly_threshold analyzer_twenty = 2.5" "pattern_count analyzer_twenty = 0"
    by (simp_all add: analyzer_twenty_def)
  show ?thesis
    unfolding detect_anomalies_def Let_def s twenty_values twenty_history_length th
    by (simp add: slice_first_def slice_last_def twenty_baseline case_prod_beta
        del: anomaly_loop.simps zip_Cons_Cons)
qed

text \<open>
  Claim C7: every pattern detected by the pattern analyzer, by \<open>analyze_recent_performance\<close>
  and by \<open>detect_anomalies\<close> alike, is appended to the pattern history of capacity 500 and
  returned to the caller.

  For \<open>detect_anomalies\<close> this fails. On an analyzer with an empty pattern history and
  twenty recorded episodes whose \<open>mean_reward\<close> values are 0, 2 (five times over), nine 1s and
  a final 10, \<open>detect_anomalies('mean_reward', 50)\<close> returns exactly one anomaly pattern and
  moves \<open>_pattern_count\<close> from 0 to 1, while \<open>_patterns\<close> stays empty, so that
  \<open>get_pattern_summary\<close> still counts no pattern.
\<close>

theorem detect_anomalies_not_stored:
  "length (fst (detect_anomalies lib0 clock0 ''mean_reward'' 50 analyzer_twenty)) = 1
   \<and> patterns analyzer_twenty = []
   \<and> patterns (snd (detect_anomalies lib0 clock0 ''mean_reward'' 50 analyzer_twenty)) = []
   \<and> total_patterns (snd (detect_anomalies lib0 clock0 ''mean_reward'' 50 analyzer_twenty)) = 0
   \<and> pattern_count (snd (detect_anomalies lib0 clock0 ''mean_reward'' 50 analyzer_twenty)) = 1"
proof -
  have th: "patterns analyzer_twenty = []"
    by (simp add: analyzer_twenty_def)
  show ?thesis
    unfolding twenty_run twenty_loop by (simp add: th total_patterns_def)
qed

end
